theory Spec2Isabelle
  imports Complex_Main
begin

section \<open>Floating-point cells\<close>

text \<open>
  The script \<^verbatim>\<open>calibration/spectral_response_monochromator.py\<close> works on numpy arrays of
  64-bit floats in which a missing measurement is the value NaN. A float is modelled by
  its exact real value, or one of the three special values of IEEE arithmetic. Rounding,
  overflow and the sign of zero are not modelled: a zero divisor counts as \<open>+0\<close>.
\<close>

datatype fl = Fin real | PInf | NInf | NaN

fun isnan :: "fl \<Rightarrow> bool" where
  "isnan NaN = True"
| "isnan _ = False"

fun isfinite :: "fl \<Rightarrow> bool" where
  "isfinite (Fin _) = True"
| "isfinite _ = False"

text \<open>The sign of a value that is not NaN: \<open>True\<close> for a positive one.\<close>

fun positive :: "fl \<Rightarrow> bool" where
  "positive (Fin x) = (0 < x)"
| "positive PInf = True"
| "positive _ = False"

fun signed_inf :: "bool \<Rightarrow> fl" where
  "signed_inf True = PInf"
| "signed_inf False = NInf"

fun fl_add :: "fl \<Rightarrow> fl \<Rightarrow> fl" where
  "fl_add NaN _ = NaN"
| "fl_add _ NaN = NaN"
| "fl_add (Fin x) (Fin y) = Fin (x + y)"
| "fl_add PInf NInf = NaN"
| "fl_add NInf PInf = NaN"
| "fl_add PInf _ = PInf"
| "fl_add _ PInf = PInf"
| "fl_add NInf _ = NInf"
| "fl_add _ NInf = NInf"

fun fl_mul :: "fl \<Rightarrow> fl \<Rightarrow> fl" where
  "fl_mul NaN _ = NaN"
| "fl_mul _ NaN = NaN"
| "fl_mul (Fin x) (Fin y) = Fin (x * y)"
| "fl_mul a b =
     (if a = Fin 0 \<or> b = Fin 0 then NaN else signed_inf (positive a = positive b))"

fun fl_div :: "fl \<Rightarrow> fl \<Rightarrow> fl" where
  "fl_div NaN _ = NaN"
| "fl_div _ NaN = NaN"
| "fl_div (Fin x) (Fin y) =
     (if y \<noteq> 0 then Fin (x / y)
      else if x = 0 then NaN
      else signed_inf (0 < x))"
| "fl_div (Fin x) _ = Fin 0"
| "fl_div a (Fin y) = signed_inf (positive a = (0 \<le> y))"
| "fl_div _ _ = NaN"

fun fl_sqrt :: "fl \<Rightarrow> fl" where
  "fl_sqrt (Fin x) = (if 0 \<le> x then Fin (sqrt x) else NaN)"
| "fl_sqrt PInf = PInf"
| "fl_sqrt _ = NaN"

text \<open>\<^verbatim>\<open>x ** 2\<close>\<close>

fun fl_sq :: "fl \<Rightarrow> fl" where
  "fl_sq (Fin x) = Fin (x ^ 2)"
| "fl_sq NaN = NaN"
| "fl_sq _ = PInf"

fun fl_abs :: "fl \<Rightarrow> fl" where
  "fl_abs (Fin x) = Fin \<bar>x\<bar>"
| "fl_abs NaN = NaN"
| "fl_abs _ = PInf"

text \<open>\<^verbatim>\<open>a >= b\<close>: every comparison with NaN is false.\<close>

fun fl_ge :: "fl \<Rightarrow> fl \<Rightarrow> bool" where
  "fl_ge NaN _ = False"
| "fl_ge _ NaN = False"
| "fl_ge (Fin x) (Fin y) = (y \<le> x)"
| "fl_ge PInf _ = True"
| "fl_ge _ NInf = True"
| "fl_ge _ _ = False"

text \<open>\<^verbatim>\<open>np.maximum\<close> of two values (NaN wins).\<close>

definition fl_max :: "fl \<Rightarrow> fl \<Rightarrow> fl" where
  "fl_max a b = (if isnan a then a else if isnan b then b else if fl_ge a b then a else b)"

section \<open>Arrays\<close>

text \<open>
  The last axis of every array of the script has length 4: the channels R, G, B and G2
  (\<^verbatim>\<open>np.full((len(wavelengths), len(all_wavelengths), 4), np.nan)\<close>). A row of an array,
  the four channels at one wavelength, is a value of \<open>'a rgbg\<close>; a spectrum on the
  global grid is a list of rows, and \<^verbatim>\<open>all_means\<close> a list of spectra.
\<close>

datatype 'a rgbg = RGBG (chR: 'a) (chG: 'a) (chB: 'a) (chG2: 'a)

definition rgbg2 :: "('a \<Rightarrow> 'b \<Rightarrow> 'c) \<Rightarrow> 'a rgbg \<Rightarrow> 'b rgbg \<Rightarrow> 'c rgbg" where
  "rgbg2 f a b = RGBG (f (chR a) (chR b)) (f (chG a) (chG b)) (f (chB a) (chB b)) (f (chG2 a) (chG2 b))"

definition channels :: "'a rgbg \<Rightarrow> 'a list" where
  "channels a = [chR a, chG a, chB a, chG2 a]"

definition selectors :: "('a rgbg \<Rightarrow> 'a) rgbg" where
  "selectors = RGBG chR chG chB chG2"

type_synonym spectrum = "fl rgbg list"

definition nan_row :: "fl rgbg" where
  "nan_row = RGBG NaN NaN NaN NaN"

text \<open>Elementwise operations on arrays of the same shape.\<close>

definition arr2_map :: "('a \<Rightarrow> 'b) \<Rightarrow> 'a rgbg list \<Rightarrow> 'b rgbg list" where
  "arr2_map f A = map (map_rgbg f) A"

definition arr2_map2 :: "('a \<Rightarrow> 'b \<Rightarrow> 'c) \<Rightarrow> 'a rgbg list \<Rightarrow> 'b rgbg list \<Rightarrow> 'c rgbg list" where
  "arr2_map2 f A B = map2 (rgbg2 f) A B"

definition arr3_map :: "('a \<Rightarrow> 'b) \<Rightarrow> 'a rgbg list list \<Rightarrow> 'b rgbg list list" where
  "arr3_map f A = map (arr2_map f) A"

definition arr3_map2 ::
  "('a \<Rightarrow> 'b \<Rightarrow> 'c) \<Rightarrow> 'a rgbg list list \<Rightarrow> 'b rgbg list list \<Rightarrow> 'c rgbg list list" where
  "arr3_map2 f A B = map2 (arr2_map2 f) A B"

text \<open>An array of shape (n, W, 4) combined with one of shape (W, 4) by broadcasting.\<close>

definition bcast2 ::
  "('a \<Rightarrow> 'b \<Rightarrow> 'c) \<Rightarrow> 'a rgbg list list \<Rightarrow> 'b rgbg list \<Rightarrow> 'c rgbg list list" where
  "bcast2 f A R = map (\<lambda>S. arr2_map2 f S R) A"

text \<open>
  A reduction along axis 0 of an array of shape (n, W, 4): at every wavelength index below
  \<open>W\<close> and every channel, \<open>f\<close> reduces the column of the n values of the spectra.
\<close>

definition column :: "'a rgbg list list \<Rightarrow> nat \<Rightarrow> ('a rgbg \<Rightarrow> 'a) \<Rightarrow> 'a list" where
  "column A w sel = map (\<lambda>S. sel (S ! w)) A"

definition axis0 :: "('a list \<Rightarrow> 'b) \<Rightarrow> nat \<Rightarrow> 'a rgbg list list \<Rightarrow> 'b rgbg list" where
  "axis0 f W A = map (\<lambda>w. map_rgbg (\<lambda>sel. f (column A w sel)) selectors) [0..<W]"

section \<open>Grid Aligner (lines 65-75)\<close>

datatype error = ValueError | TypeError | IndexError | LinAlgError

text \<open>\<^verbatim>\<open>np.unique\<close>: the sorted distinct values.\<close>

definition np_unique :: "real list \<Rightarrow> real list" where
  "np_unique xs = sort (remdups xs)"

text \<open>
  \<^verbatim>\<open>np.searchsorted(a, v)\<close> (side left) on a sorted array: the first index whose element is
  not below \<open>v\<close>.
\<close>

definition searchsorted :: "real list \<Rightarrow> real \<Rightarrow> nat" where
  "searchsorted a v = length (takeWhile (\<lambda>x. x < v) a)"

text \<open>
  \<^verbatim>\<open>arr[indices] = rows\<close>: the rows are written in order, so the last one wins at a
  repeated index. The rows must be as many as the indices, or a single row, which is then
  broadcast; numpy raises ValueError otherwise.
\<close>

definition broadcast_rows :: "nat \<Rightarrow> 'a list \<Rightarrow> error + 'a list" where
  "broadcast_rows k rows =
     (if length rows = k then Inr rows
      else if length rows = 1 then Inr (replicate k (hd rows))
      else Inl ValueError)"

definition assign_rows :: "'a list \<Rightarrow> nat list \<Rightarrow> 'a list \<Rightarrow> 'a list" where
  "assign_rows arr indices rows = fold (\<lambda>(j, r) a. a[j := r]) (zip indices rows) arr"

text \<open>
  The body of the loop of lines 72-75 for one configuration and one of its two arrays
  (mean or std): the result is row \<open>i\<close> of \<^verbatim>\<open>all_means\<close> (or \<^verbatim>\<open>all_stds\<close>).
\<close>

definition align_one :: "real list \<Rightarrow> real list \<Rightarrow> spectrum \<Rightarrow> error + spectrum" where
  "align_one all_wavelengths wvl mean =
     (let indices = map (searchsorted all_wavelengths) wvl in
      case broadcast_rows (length indices) mean of
        Inl e \<Rightarrow> Inl e
      | Inr rows \<Rightarrow> Inr (assign_rows (replicate (length all_wavelengths) nan_row) indices rows))"

text \<open>Running a list of fallible computations stops at the first error.\<close>

fun sequence :: "('e + 'a) list \<Rightarrow> 'e + 'a list" where
  "sequence [] = Inr []"
| "sequence (Inl e # _) = Inl e"
| "sequence (Inr x # xs) = (case sequence xs of Inl e \<Rightarrow> Inl e | Inr ys \<Rightarrow> Inr (x # ys))"

definition all_wavelengths_of :: "real list list \<Rightarrow> real list" where
  "all_wavelengths_of wavelengths = np_unique (concat wavelengths)"

text \<open>
  \<^verbatim>\<open>for i, (wvl, mean, std) in enumerate(zip(wavelengths, means, stds))\<close>: \<open>zip\<close> stops at
  the shortest list, and the spectra beyond it stay NaN.
\<close>

definition align_all :: "real list list \<Rightarrow> spectrum list \<Rightarrow> nat \<Rightarrow> error + spectrum list" where
  "align_all wavelengths means k =
     (let all_wavelengths = all_wavelengths_of wavelengths in
      sequence (map (\<lambda>i. if i < k
                          then align_one all_wavelengths (wavelengths ! i) (means ! i)
                          else Inr (replicate (length all_wavelengths) nan_row))
                 [0..<length wavelengths]))"

section \<open>Calibrator (lines 83-98)\<close>

definition first_index :: "'a list \<Rightarrow> 'a \<Rightarrow> nat" where
  "first_index xs v = length (takeWhile (\<lambda>x. x \<noteq> v) xs)"

text \<open>
  \<^verbatim>\<open>np.intersect1d(ar1, ar2, return_indices=True)\<close>: for every common value, in ascending
  order, the index of its first occurrence in \<open>ar1\<close> and in \<open>ar2\<close>.
\<close>

definition intersect1d :: "real list \<Rightarrow> real list \<Rightarrow> (nat \<times> nat) list" where
  "intersect1d ar1 ar2 =
     map (\<lambda>v. (first_index ar1 v, first_index ar2 v))
       (filter (\<lambda>v. v \<in> set ar2) (np_unique ar1))"

text \<open>
  A calibration file is an array of two rows, \<^verbatim>\<open>cal[0]\<close> the wavelengths and \<^verbatim>\<open>cal[1]\<close>
  the factors: a list of columns here.
\<close>

type_synonym cal = "(real \<times> fl) list"

text \<open>The body of the loop of lines 89-98, for the means or for the stds.\<close>

definition calibrate_one :: "real list \<Rightarrow> spectrum \<Rightarrow> cal \<Rightarrow> spectrum" where
  "calibrate_one all_wavelengths mean cal =
     (let idx = intersect1d (map fst cal) all_wavelengths;
          cal_indices = map fst idx;
          all_wavelengths_indices = map snd idx;
          rows = map2 (\<lambda>gi ci. map_rgbg (\<lambda>m. fl_div m (snd (cal ! ci))) (mean ! gi))
                   all_wavelengths_indices cal_indices
      in assign_rows (replicate (length mean) nan_row) all_wavelengths_indices rows)"

definition calibrate_all :: "real list \<Rightarrow> spectrum list \<Rightarrow> cal list \<Rightarrow> spectrum list" where
  "calibrate_all all_wavelengths all_means cals =
     map (\<lambda>i. if i < length cals
               then calibrate_one all_wavelengths (all_means ! i) (cals ! i)
               else replicate (length (all_means ! i)) nan_row)
       [0..<length all_means]"

section \<open>Overlap Analyzer (lines 110-127)\<close>

text \<open>
  \<^verbatim>\<open>len(np.where(~np.isnan(spectrum_a + spectrum_b))[0])\<close>: the number of cells of the sum
  that are not NaN.
\<close>

definition count_not_nan :: "spectrum \<Rightarrow> nat" where
  "count_not_nan A = length (filter (\<lambda>x. \<not> isnan x) (concat (map channels A)))"

definition overlap :: "spectrum \<Rightarrow> spectrum \<Rightarrow> nat" where
  "overlap spectrum_a spectrum_b = count_not_nan (arr2_map2 fl_add spectrum_a spectrum_b)"

definition all_overlaps_of :: "spectrum list \<Rightarrow> nat list list" where
  "all_overlaps_of M = map (\<lambda>mean2. map (\<lambda>mean1. overlap mean1 mean2) M) M"

definition diag :: "nat list list \<Rightarrow> nat list" where
  "diag M = map (\<lambda>i. M ! i ! i) [0..<length M]"

text \<open>\<^verbatim>\<open>argmax\<close>: the first index of the maximum; numpy raises ValueError on an empty array.\<close>

definition np_argmax :: "nat list \<Rightarrow> error + nat" where
  "np_argmax xs = (if xs = [] then Inl ValueError else Inr (first_index xs (Max (set xs))))"

text \<open>
  \<^verbatim>\<open>np.argsort\<close>: the indices that sort the array in ascending order. The default sort of
  numpy promises no order among equal elements, and the order it leaves them in depends on
  the build; here equal elements keep the order of their indices. What is proved below for
  all inputs uses only that the result is a permutation of the indices that sorts the
  elements (\<open>set_argsort\<close>, \<open>distinct_argsort\<close>, \<open>sorted_argsort\<close>); the order of equal
  elements matters only where \<open>argsort\<close> is evaluated on an example.
\<close>

definition argsort :: "nat list \<Rightarrow> nat list" where
  "argsort xs = map snd (sort_key fst (zip xs [0..<length xs]))"

text \<open>
  \<^verbatim>\<open>np.argsort(all_overlaps[baseline])[-2::-1]\<close>: from the last element but one down to the
  first.
\<close>

definition normalise_order_of :: "nat list list \<Rightarrow> nat \<Rightarrow> nat list" where
  "normalise_order_of all_overlaps baseline = rev (butlast (argsort (all_overlaps ! baseline)))"

section \<open>Normalizer (lines 105-152)\<close>

text \<open>\<^verbatim>\<open>xs[-k]\<close>, which raises IndexError when \<open>xs\<close> has fewer than \<open>k\<close> elements.\<close>

definition from_end :: "'a list \<Rightarrow> nat \<Rightarrow> error + 'a" where
  "from_end xs k = (if 0 < k \<and> k \<le> length xs then Inr (xs ! (length xs - k)) else Inl IndexError)"

text \<open>\<^verbatim>\<open>arr[ind]\<close> for a boolean array \<open>ind\<close>.\<close>

definition select :: "'a list \<Rightarrow> bool list \<Rightarrow> 'a list" where
  "select arr ind = map fst (filter snd (zip arr ind))"

text \<open>The coefficients of a parabola, highest power first, as \<^verbatim>\<open>np.polyfit\<close> returns them.\<close>

type_synonym poly2 = "fl \<times> fl \<times> fl"

text \<open>\<^verbatim>\<open>np.polyval(p, x)\<close> at one point, by Horner's rule.\<close>

definition polyval :: "poly2 \<Rightarrow> fl \<Rightarrow> fl" where
  "polyval p x = (case p of (a, b, c) \<Rightarrow> foldl (\<lambda>y pv. fl_add (fl_mul y x) pv) (Fin 0) [a, b, c])"

text \<open>
  \<^verbatim>\<open>np.polyfit(x, y, 2)\<close> for the four columns of \<open>y\<close>. It raises TypeError on an
  empty \<open>x\<close>. On finite data with at least three distinct points the least-squares parabola
  is unique and solves the normal equations
  \<open>[[s4, s3, s2], [s3, s2, s1], [s2, s1, s0]] (a, b, c) = (t2, t1, t0)\<close>, where \<open>sk\<close> is the sum
  of \<open>x ^ k\<close> and \<open>tk\<close> the sum of \<open>x ^ k * y\<close>; Cramer's rule gives it. What LAPACK
  returns on any other data (an error, or the minimum-norm coefficients of a rank-deficient
  system) is the parameter \<open>lapack\<close>.
\<close>

definition power_sum :: "real list \<Rightarrow> nat \<Rightarrow> real" where
  "power_sum xs k = sum_list (map (\<lambda>x. x ^ k) xs)"

definition moment :: "real list \<Rightarrow> real list \<Rightarrow> nat \<Rightarrow> real" where
  "moment xs ys k = sum_list (map2 (\<lambda>x y. x ^ k * y) xs ys)"

definition det3 :: "real \<Rightarrow> real \<Rightarrow> real \<Rightarrow> real \<Rightarrow> real \<Rightarrow> real \<Rightarrow> real \<Rightarrow> real \<Rightarrow> real \<Rightarrow> real" where
  "det3 a b c d e f g h i = a * (e * i - f * h) - b * (d * i - f * g) + c * (d * h - e * g)"

definition normal_det :: "real list \<Rightarrow> real" where
  "normal_det xs =
     (let s = power_sum xs in det3 (s 4) (s 3) (s 2) (s 3) (s 2) (s 1) (s 2) (s 1) (s 0))"

definition least_squares :: "real list \<Rightarrow> real list \<Rightarrow> poly2" where
  "least_squares xs ys =
     (let s = power_sum xs; t = moment xs ys; d = normal_det xs in
      (Fin (det3 (t 2) (s 3) (s 2) (t 1) (s 2) (s 1) (t 0) (s 1) (s 0) / d),
       Fin (det3 (s 4) (t 2) (s 2) (s 3) (t 1) (s 1) (s 2) (t 0) (s 0) / d),
       Fin (det3 (s 4) (s 3) (t 2) (s 3) (s 2) (t 1) (s 2) (s 1) (t 0) / d)))"

fun real_of :: "fl \<Rightarrow> real" where
  "real_of (Fin x) = x"
| "real_of _ = 0"

type_synonym lapack = "real list \<Rightarrow> fl rgbg list \<Rightarrow> error + poly2 rgbg"

definition np_polyfit :: "lapack \<Rightarrow> real list \<Rightarrow> fl rgbg list \<Rightarrow> error + poly2 rgbg" where
  "np_polyfit lapack x y =
     (if x = [] then Inl TypeError
      else if list_all (\<lambda>row. list_all isfinite (channels row)) y \<and> normal_det x \<noteq> 0
      then Inr (map_rgbg (\<lambda>sel. least_squares x (map (\<lambda>row. real_of (sel row)) y)) selectors)
      else lapack x y)"

text \<open>
  The state of the loop of lines 130-152: the two arrays it writes to, and the lines it
  prints, \<^verbatim>\<open>Normalising spectrum {i} to spectrum {comparison}\<close>, as pairs
  \<open>(i, comparison)\<close>.
\<close>

record norm_state =
  all_means_normalised :: "spectrum list"
  all_stds_normalised :: "spectrum list"
  printed :: "(nat \<times> nat) list"

text \<open>
  The choice of lines 131-139. \<^verbatim>\<open>all_overlaps[i, baseline]\<close> is true when it is not
  zero.
\<close>

definition comparison_of :: "nat list list \<Rightarrow> nat \<Rightarrow> nat \<Rightarrow> error + nat" where
  "comparison_of all_overlaps baseline i =
     (if all_overlaps ! i ! baseline \<noteq> 0 then Inr baseline
      else from_end (argsort (all_overlaps ! i)) 2)"

definition fit_norms_of :: "poly2 rgbg \<Rightarrow> real list \<Rightarrow> spectrum" where
  "fit_norms_of fits all_wavelengths = map (\<lambda>w. map_rgbg (\<lambda>f. polyval f (Fin w)) fits) all_wavelengths"

text \<open>One iteration of the loop, for the spectrum \<open>i\<close>.\<close>

definition normalise_step ::
  "lapack \<Rightarrow> real list \<Rightarrow> nat list list \<Rightarrow> nat \<Rightarrow> spectrum list \<Rightarrow> spectrum list \<Rightarrow>
   norm_state \<Rightarrow> nat \<Rightarrow> error + norm_state" where
  "normalise_step lapack all_wavelengths all_overlaps baseline all_means_calibrated
       all_stds_calibrated st i =
     (case comparison_of all_overlaps baseline i of
        Inl e \<Rightarrow> Inl e
      | Inr comparison \<Rightarrow>
          (let ratios = arr2_map2 fl_div (all_means_calibrated ! i) (all_means_normalised st ! comparison);
               ind = map (\<lambda>r. \<not> isnan (chR r)) ratios
           in case np_polyfit lapack (select all_wavelengths ind) (select ratios ind) of
                Inl e \<Rightarrow> Inl e
              | Inr fits \<Rightarrow>
                  (let fit_norms = fit_norms_of fits all_wavelengths in
                   Inr \<lparr>all_means_normalised =
                          (all_means_normalised st)[i := arr2_map2 fl_div (all_means_calibrated ! i) fit_norms],
                        all_stds_normalised =
                          (all_stds_normalised st)[i := arr2_map2 fl_div (all_stds_calibrated ! i) fit_norms],
                        printed = printed st @ [(i, comparison)]\<rparr>)))"

fun normalise_loop :: "(norm_state \<Rightarrow> nat \<Rightarrow> error + norm_state) \<Rightarrow> norm_state \<Rightarrow> nat list \<Rightarrow> error + norm_state" where
  "normalise_loop step st [] = Inr st"
| "normalise_loop step st (i # rest) =
     (case step st i of Inl e \<Rightarrow> Inl e | Inr st' \<Rightarrow> normalise_loop step st' rest)"

text \<open>Lines 105-152: the copies, the baseline, the order and the loop.\<close>

definition initial_state :: "spectrum list \<Rightarrow> spectrum list \<Rightarrow> norm_state" where
  "initial_state all_means_calibrated all_stds_calibrated =
     \<lparr>all_means_normalised = all_means_calibrated,
      all_stds_normalised = all_stds_calibrated,
      printed = []\<rparr>"

definition baseline_of :: "spectrum list \<Rightarrow> error + nat" where
  "baseline_of all_means_calibrated = np_argmax (diag (all_overlaps_of all_means_calibrated))"

definition normalise ::
  "lapack \<Rightarrow> real list \<Rightarrow> spectrum list \<Rightarrow> spectrum list \<Rightarrow> error + norm_state" where
  "normalise lapack all_wavelengths all_means_calibrated all_stds_calibrated =
     (let all_overlaps = all_overlaps_of all_means_calibrated in
      case baseline_of all_means_calibrated of
        Inl e \<Rightarrow> Inl e
      | Inr baseline \<Rightarrow>
          normalise_loop
            (normalise_step lapack all_wavelengths all_overlaps baseline all_means_calibrated
               all_stds_calibrated)
            (initial_state all_means_calibrated all_stds_calibrated)
            (normalise_order_of all_overlaps baseline))"

section \<open>Combiner (lines 159-180)\<close>

text \<open>
  A cell of a \<^verbatim>\<open>numpy.ma\<close> masked array: the value stored in the underlying array, and
  whether the cell is masked. Each function below is the effect on one cell of the
  operation of \<^verbatim>\<open>numpy.ma\<close> that the script calls, the stored value under the mask
  included.
\<close>

datatype mcell = MCell (data: fl) (mask: bool)

text \<open>\<^verbatim>\<open>np.ma.array(a, mask=np.isnan(a))\<close>\<close>

definition ma_array :: "fl \<Rightarrow> mcell" where
  "ma_array x = MCell x (isnan x)"

text \<open>The default fill value of a masked array of floats, and \<^verbatim>\<open>np.finfo(float).tiny\<close>.\<close>

definition fill_value :: fl where
  "fill_value = Fin (10 ^ 20)"

definition tiny :: real where
  "tiny = 1 / 2 ^ 1022"

text \<open>
  \<^verbatim>\<open>a ** 2\<close> on a masked array (\<^verbatim>\<open>np.ma.power\<close>): a masked cell keeps its value, and a
  cell whose square is not finite (\<^verbatim>\<open>invalid\<close>) is masked and holds the fill value.
\<close>

definition ma_power2 :: "mcell \<Rightarrow> mcell" where
  "ma_power2 c =
     (let result = (if mask c then data c else fl_sq (data c));
          invalid = (\<not> isfinite result)
      in MCell (if invalid then fill_value else result) (mask c \<or> invalid))"

definition ma_power2_arr :: "mcell rgbg list list \<Rightarrow> mcell rgbg list list" where
  "ma_power2_arr A = arr3_map ma_power2 A"

text \<open>\<^verbatim>\<open>a * b\<close> on masked arrays (\<^verbatim>\<open>np.ma.multiply\<close>): a masked cell reverts to the value of \<open>a\<close>.\<close>

definition ma_multiply :: "mcell \<Rightarrow> mcell \<Rightarrow> mcell" where
  "ma_multiply a b =
     (let m = (mask a \<or> mask b) in MCell (if m then data a else fl_mul (data a) (data b)) m)"

text \<open>\<^verbatim>\<open>np.multiply(a, b)\<close>, the ufunc of numpy itself, wrapped back into a masked array.\<close>

definition np_multiply :: "mcell \<Rightarrow> mcell \<Rightarrow> mcell" where
  "np_multiply a b = MCell (fl_mul (data a) (data b)) (mask a \<or> mask b)"

text \<open>
  \<^verbatim>\<open>a / b\<close> on masked arrays (\<^verbatim>\<open>np.ma.true_divide\<close>): the cell is masked where an operand
  is masked, where the quotient is not finite, and where the divisor is outside the domain
  \<^verbatim>\<open>abs(a) * tiny >= abs(b)\<close>; a masked cell holds the value of \<open>a\<close>.
\<close>

definition domain_safe_divide :: "fl \<Rightarrow> fl \<Rightarrow> bool" where
  "domain_safe_divide a b = fl_ge (fl_mul (fl_abs a) (Fin tiny)) (fl_abs b)"

definition ma_true_divide :: "mcell \<Rightarrow> mcell \<Rightarrow> mcell" where
  "ma_true_divide a b =
     (let result = fl_div (data a) (data b);
          m = (\<not> isfinite result \<or> domain_safe_divide (data a) (data b) \<or> mask a \<or> mask b)
      in MCell (if m then data a else result) m)"

text \<open>
  \<^verbatim>\<open>a.sum(axis=0)\<close> on one column: the sum of the values that are not masked
  (\<^verbatim>\<open>a.filled(0).sum(axis)\<close>), masked when all of them are.
\<close>

definition ma_sum :: "mcell list \<Rightarrow> mcell" where
  "ma_sum col =
     MCell (foldl fl_add (Fin 0) (map (\<lambda>c. if mask c then Fin 0 else data c) col))
           (list_all mask col)"

text \<open>
  \<^verbatim>\<open>np.sqrt(a)\<close> on a masked array: the cells that are masked or negative are masked and
  hold 0.
\<close>

definition fl_less :: "fl \<Rightarrow> fl \<Rightarrow> bool" where
  "fl_less a b = (\<not> isnan a \<and> \<not> isnan b \<and> \<not> fl_ge a b)"

definition ma_sqrt :: "mcell \<Rightarrow> mcell" where
  "ma_sqrt c =
     (let d = (mask c \<or> fl_less (data c) (Fin 0)) in
      MCell (if d then Fin 0 else fl_sqrt (data c)) d)"

text \<open>
  \<^verbatim>\<open>a.max()\<close> over a whole masked array, given as the list of its cells: the maximum of the
  cells that are not masked (\<^verbatim>\<open>a.filled(-inf).max()\<close>), and the constant
  \<^verbatim>\<open>np.ma.masked\<close>, which holds 0, when all are masked. numpy raises ValueError on an array
  without elements.
\<close>

definition ma_max :: "mcell list \<Rightarrow> error + mcell" where
  "ma_max cells =
     (if cells = [] then Inl ValueError
      else if list_all mask cells then Inr (MCell (Fin 0) True)
      else Inr (MCell (foldl fl_max NInf (map (\<lambda>c. if mask c then NInf else data c) cells)) False))"

text \<open>
  \<^verbatim>\<open>np.ma.average(a, axis=0, weights=weights)\<close>:
  \<^verbatim>\<open>wgt = wgt*(~a.mask); wgt.mask |= a.mask; scl = wgt.sum(axis=0);\<close>
  \<^verbatim>\<open>avg = np.multiply(a, wgt).sum(axis=0) / scl\<close>.
\<close>

definition average_wgt :: "mcell \<Rightarrow> mcell \<Rightarrow> mcell" where
  "average_wgt a w =
     (let p = ma_multiply w (MCell (Fin (if mask a then 0 else 1)) False)
      in MCell (data p) (mask p \<or> mask a))"

definition ma_average :: "nat \<Rightarrow> mcell rgbg list list \<Rightarrow> mcell rgbg list list \<Rightarrow> mcell rgbg list" where
  "ma_average W a weights =
     (let wgt = arr3_map2 average_wgt a weights;
          scl = axis0 ma_sum W wgt
      in arr2_map2 ma_true_divide (axis0 ma_sum W (arr3_map2 np_multiply a wgt)) scl)"

text \<open>
  Lines 161-169; \<open>means_n\<close> and \<open>stds_n\<close> are \<^verbatim>\<open>all_means_normalised\<close> and
  \<^verbatim>\<open>all_stds_normalised\<close>.
\<close>

definition weights_of :: "spectrum list \<Rightarrow> spectrum list \<Rightarrow> mcell rgbg list list" where
  "weights_of means_n stds_n =
     (let SNR = arr3_map2 fl_div means_n stds_n;
          SNR_mask = arr3_map ma_array SNR
      in ma_power2_arr SNR_mask)"

text \<open>Lines 172 and 173; \<open>W\<close> is the length of the global grid.\<close>

definition flat_means_mask_of :: "nat \<Rightarrow> spectrum list \<Rightarrow> spectrum list \<Rightarrow> mcell rgbg list" where
  "flat_means_mask_of W means_n stds_n =
     (let mean_mask = arr3_map ma_array means_n;
          weights = weights_of means_n stds_n
      in ma_average W mean_mask weights)"

definition flat_errs_mask_of :: "nat \<Rightarrow> spectrum list \<Rightarrow> spectrum list \<Rightarrow> mcell rgbg list" where
  "flat_errs_mask_of W means_n stds_n =
     (let stds_mask = arr3_map ma_array stds_n;
          weights = weights_of means_n stds_n
      in arr2_map ma_sqrt
           (axis0 ma_sum W
              (ma_power2_arr
                 (arr3_map2 ma_multiply
                    (bcast2 ma_true_divide weights (axis0 ma_sum W weights))
                    stds_mask))))"

text \<open>
  Lines 179 and 180: \<^verbatim>\<open>(flat / flat_means_mask.max()).data\<close>, the division by the maximum of
  the combined means and the removal of the mask.
\<close>

definition rescale :: "mcell \<Rightarrow> mcell rgbg list \<Rightarrow> spectrum" where
  "rescale mx flat = arr2_map data (arr2_map (\<lambda>c. ma_true_divide c mx) flat)"

record combined =
  response_normalised :: spectrum
  errors_normalised :: spectrum

definition combine :: "nat \<Rightarrow> spectrum list \<Rightarrow> spectrum list \<Rightarrow> error + combined" where
  "combine W means_n stds_n =
     (let flat_means_mask = flat_means_mask_of W means_n stds_n;
          flat_errs_mask = flat_errs_mask_of W means_n stds_n
      in case ma_max (concat (map channels flat_means_mask)) of
           Inl e \<Rightarrow> Inl e
         | Inr mx \<Rightarrow>
             Inr \<lparr>response_normalised = rescale mx flat_means_mask,
                  errors_normalised = rescale mx flat_errs_mask\<rparr>)"

section \<open>The script, from the loaded data to the final curve\<close>

record curves =
  wavelengths_out :: "real list"
  means_calibrated :: "spectrum list"
  stds_calibrated :: "spectrum list"
  normalised :: norm_state
  final :: combined

text \<open>
  \<open>wavelengths\<close>, \<open>means\<close> and \<open>stds\<close> are the three lists that
  \<^verbatim>\<open>load_monochromator_data_multiple\<close> returns, one entry per folder, and \<open>cals\<close> the
  calibration data of the folders. \<^verbatim>\<open>np.concatenate\<close> raises ValueError when there is no
  folder.
\<close>

definition run ::
  "lapack \<Rightarrow> real list list \<Rightarrow> spectrum list \<Rightarrow> spectrum list \<Rightarrow> cal list \<Rightarrow> error + curves" where
  "run lapack wavelengths means stds cals =
     (if wavelengths = [] then Inl ValueError
      else
        let all_wavelengths = all_wavelengths_of wavelengths;
            k = min (length means) (length stds)
        in case align_all wavelengths means k of
             Inl e \<Rightarrow> Inl e
           | Inr all_means \<Rightarrow>
        (case align_all wavelengths stds k of
             Inl e \<Rightarrow> Inl e
           | Inr all_stds \<Rightarrow>
        (let all_means_calibrated = calibrate_all all_wavelengths all_means cals;
             all_stds_calibrated = calibrate_all all_wavelengths all_stds cals
         in case normalise lapack all_wavelengths all_means_calibrated all_stds_calibrated of
              Inl e \<Rightarrow> Inl e
            | Inr st \<Rightarrow>
         (case combine (length all_wavelengths) (all_means_normalised st) (all_stds_normalised st) of
              Inl e \<Rightarrow> Inl e
            | Inr c \<Rightarrow>
                Inr \<lparr>wavelengths_out = all_wavelengths,
                     means_calibrated = all_means_calibrated,
                     stds_calibrated = all_stds_calibrated,
                     normalised = st,
                     final = c\<rparr>))))"

section \<open>Notions of the specification\<close>

text \<open>
  A cell is missing when it holds NaN. The cells of two spectra on the same grid, paired,
  and the number of pairs in which neither cell is missing.
\<close>

definition cell_pairs :: "spectrum \<Rightarrow> spectrum \<Rightarrow> (fl \<times> fl) list" where
  "cell_pairs A B = concat (map2 (\<lambda>ra rb. zip (channels ra) (channels rb)) A B)"

definition jointly_valid_cells :: "spectrum \<Rightarrow> spectrum \<Rightarrow> nat" where
  "jointly_valid_cells A B = length (filter (\<lambda>(a, b). \<not> isnan a \<and> \<not> isnan b) (cell_pairs A B))"

text \<open>Two infinities of opposite sign: the only values that are not NaN and whose sum is.\<close>

definition opposite_inf :: "fl \<Rightarrow> fl \<Rightarrow> bool" where
  "opposite_inf a b = (a = PInf \<and> b = NInf \<or> a = NInf \<and> b = PInf)"

text \<open>
  The cell of an array of shape (W, 4) at the wavelength index \<open>w\<close> and the channel
  \<open>c\<close>, and the column of the cells \<open>(w, c)\<close> of the spectra of an array of shape
  (n, W, 4).
\<close>

definition cell :: "'a rgbg list \<Rightarrow> nat \<Rightarrow> nat \<Rightarrow> 'a" where
  "cell A w c = channels (A ! w) ! c"

definition col :: "'a rgbg list list \<Rightarrow> nat \<Rightarrow> nat \<Rightarrow> 'a list" where
  "col A w c = map (\<lambda>S. cell S w c) A"

definition wide :: "nat \<Rightarrow> 'a list list \<Rightarrow> bool" where
  "wide w A = list_all (\<lambda>S. w < length S) A"

text \<open>
  A pair (mean, std) of one spectrum at one cell. It is missing when either value is NaN,
  and valid when both are finite and the std is not zero; its weight is the square of the
  signal-to-noise ratio.
\<close>

definition missing_pair :: "fl \<times> fl \<Rightarrow> bool" where
  "missing_pair p = (isnan (fst p) \<or> isnan (snd p))"

definition valid_pair :: "fl \<times> fl \<Rightarrow> bool" where
  "valid_pair p = (isfinite (fst p) \<and> isfinite (snd p) \<and> snd p \<noteq> Fin 0)"

definition weight_of :: "fl \<times> fl \<Rightarrow> real" where
  "weight_of p = (real_of (fst p) / real_of (snd p)) ^ 2"

text \<open>The sums of section 4.5 of the specification over the valid pairs of a column.\<close>

definition sum_weights :: "(fl \<times> fl) list \<Rightarrow> real" where
  "sum_weights ps = sum_list (map weight_of (filter valid_pair ps))"

definition sum_weighted_means :: "(fl \<times> fl) list \<Rightarrow> real" where
  "sum_weighted_means ps = sum_list (map (\<lambda>p. weight_of p * real_of (fst p)) (filter valid_pair ps))"

definition sum_squared_errors :: "(fl \<times> fl) list \<Rightarrow> real" where
  "sum_squared_errors ps =
     sum_list (map (\<lambda>p. (weight_of p / sum_weights ps * real_of (snd p)) ^ 2) (filter valid_pair ps))"

text \<open>
  What lines 161-173 compute in one column, from the pairs (mean, std) of the spectra at
  that cell.
\<close>

definition weight_cell :: "fl \<times> fl \<Rightarrow> mcell" where
  "weight_cell p = ma_power2 (ma_array (fl_div (fst p) (snd p)))"

definition wgt_cell :: "fl \<times> fl \<Rightarrow> mcell" where
  "wgt_cell p = average_wgt (ma_array (fst p)) (weight_cell p)"

definition mean_col :: "(fl \<times> fl) list \<Rightarrow> mcell" where
  "mean_col ps =
     ma_true_divide (ma_sum (map (\<lambda>p. np_multiply (ma_array (fst p)) (wgt_cell p)) ps))
       (ma_sum (map wgt_cell ps))"

definition err_cell :: "mcell \<Rightarrow> fl \<times> fl \<Rightarrow> mcell" where
  "err_cell tot p =
     ma_power2 (ma_multiply (ma_true_divide (weight_cell p) tot) (ma_array (snd p)))"

definition err_col :: "(fl \<times> fl) list \<Rightarrow> mcell" where
  "err_col ps =
     ma_sqrt (ma_sum (map (err_cell (ma_sum (map weight_cell ps))) ps))"

section \<open>Example inputs\<close>

text \<open>A stand-in for LAPACK that fails whenever it is consulted.\<close>

definition no_lapack :: lapack where
  "no_lapack x y = Inl LinAlgError"

text \<open>
  One configuration measured at three wavelengths whose calibration file covers only the
  first two.
\<close>

definition gap_wavelengths :: "real list list" where
  "gap_wavelengths = [[400, 410, 420]]"

definition gap_means :: "spectrum list" where
  "gap_means = [[RGBG (Fin 100) (Fin 80) (Fin 60) (Fin 80), RGBG (Fin 90) (Fin 70) (Fin 50) (Fin 70),
                 RGBG (Fin 10) (Fin 20) (Fin 30) (Fin 20)]]"

definition gap_stds :: "spectrum list" where
  "gap_stds = [[RGBG (Fin 5) (Fin 5) (Fin 5) (Fin 5), RGBG (Fin 5) (Fin 5) (Fin 5) (Fin 5),
                RGBG (Fin 5) (Fin 5) (Fin 5) (Fin 5)]]"

definition gap_cals :: "cal list" where
  "gap_cals = [[(400, Fin 2), (410, Fin 2)]]"

text \<open>Two configurations with the same wavelengths and the same data.\<close>

definition twin_wavelengths :: "real list list" where
  "twin_wavelengths = [[400, 410, 420], [400, 410, 420]]"

definition twin_means :: "spectrum list" where
  "twin_means = [[RGBG (Fin 100) (Fin 80) (Fin 60) (Fin 80), RGBG (Fin 90) (Fin 70) (Fin 50) (Fin 70),
                  RGBG (Fin 10) (Fin 20) (Fin 30) (Fin 20)],
                 [RGBG (Fin 100) (Fin 80) (Fin 60) (Fin 80), RGBG (Fin 90) (Fin 70) (Fin 50) (Fin 70),
                  RGBG (Fin 10) (Fin 20) (Fin 30) (Fin 20)]]"

definition twin_stds :: "spectrum list" where
  "twin_stds = [[RGBG (Fin 5) (Fin 5) (Fin 5) (Fin 5), RGBG (Fin 5) (Fin 5) (Fin 5) (Fin 5),
                 RGBG (Fin 5) (Fin 5) (Fin 5) (Fin 5)],
                [RGBG (Fin 5) (Fin 5) (Fin 5) (Fin 5), RGBG (Fin 5) (Fin 5) (Fin 5) (Fin 5),
                 RGBG (Fin 5) (Fin 5) (Fin 5) (Fin 5)]]"

definition twin_cals :: "cal list" where
  "twin_cals = [[(400, Fin 1), (410, Fin 1), (420, Fin 1)], [(400, Fin 1), (410, Fin 1), (420, Fin 1)]]"

text \<open>
  Three configurations: the first measured at four wavelengths that no other configuration
  shares, the other two at the same three wavelengths, one at twice the level of the other.
  \<open>iso_grid\<close>, \<open>iso_means_calibrated\<close> and \<open>iso_stds_calibrated\<close> are the global grid and
  the aligned and calibrated arrays of this input (lemmas \<open>iso_grid\<close>, \<open>iso_align\<close> and
  \<open>iso_calibrate\<close>).
\<close>

definition iso_wavelengths :: "real list list" where
  "iso_wavelengths = [[400, 410, 420, 430], [500, 510, 520], [500, 510, 520]]"

definition iso_means :: "spectrum list" where
  "iso_means = [replicate 4 (RGBG (Fin 100) (Fin 80) (Fin 60) (Fin 80)),
                replicate 3 (RGBG (Fin 100) (Fin 80) (Fin 60) (Fin 80)),
                replicate 3 (RGBG (Fin 200) (Fin 160) (Fin 120) (Fin 160))]"

definition iso_stds :: "spectrum list" where
  "iso_stds = [replicate 4 (RGBG (Fin 5) (Fin 5) (Fin 5) (Fin 5)),
               replicate 3 (RGBG (Fin 5) (Fin 5) (Fin 5) (Fin 5)),
               replicate 3 (RGBG (Fin 5) (Fin 5) (Fin 5) (Fin 5))]"

definition iso_cals :: "cal list" where
  "iso_cals = [[(400, Fin 1), (410, Fin 1), (420, Fin 1), (430, Fin 1)],
               [(500, Fin 1), (510, Fin 1), (520, Fin 1)],
               [(500, Fin 1), (510, Fin 1), (520, Fin 1)]]"

definition iso_grid :: "real list" where
  "iso_grid = [400, 410, 420, 430, 500, 510, 520]"

definition iso_means_calibrated :: "spectrum list" where
  "iso_means_calibrated =
     [replicate 4 (RGBG (Fin 100) (Fin 80) (Fin 60) (Fin 80)) @ replicate 3 nan_row,
      replicate 4 nan_row @ replicate 3 (RGBG (Fin 100) (Fin 80) (Fin 60) (Fin 80)),
      replicate 4 nan_row @ replicate 3 (RGBG (Fin 200) (Fin 160) (Fin 120) (Fin 160))]"

definition iso_stds_calibrated :: "spectrum list" where
  "iso_stds_calibrated =
     [replicate 4 (RGBG (Fin 5) (Fin 5) (Fin 5) (Fin 5)) @ replicate 3 nan_row,
      replicate 4 nan_row @ replicate 3 (RGBG (Fin 5) (Fin 5) (Fin 5) (Fin 5)),
      replicate 4 nan_row @ replicate 3 (RGBG (Fin 5) (Fin 5) (Fin 5) (Fin 5))]"

text \<open>
  For the proofs about the loop. \<open>shadows A B\<close>: in channel 0, the spectrum \<open>B\<close> is NaN
  where \<open>A\<close> is, and not finite where \<open>A\<close> is not. Every entry of
  \<^verbatim>\<open>all_means_normalised\<close> shadows the calibrated spectrum it comes from, throughout the
  loop.
\<close>

definition shadows :: "spectrum \<Rightarrow> spectrum \<Rightarrow> bool" where
  "shadows A B \<longleftrightarrow>
     length B \<le> length A \<and>
     (\<forall>k < length B. (isnan (chR (A ! k)) \<longrightarrow> isnan (chR (B ! k))) \<and>
                      (\<not> isfinite (chR (A ! k)) \<longrightarrow> \<not> isfinite (chR (B ! k))))"

definition loop_invariant :: "spectrum list \<Rightarrow> norm_state \<Rightarrow> bool" where
  "loop_invariant M st \<longleftrightarrow>
     length (all_means_normalised st) = length M \<and>
     (\<forall>j < length M. shadows (M ! j) (all_means_normalised st ! j))"

text \<open>
  A pair that is missing, or valid with a mean below \<open>1 / tiny\<close> in magnitude; and the
  greatest mean over the valid cells of a spectrum with means \<open>S\<close> and stds \<open>T\<close> on a
  grid of \<open>W\<close> wavelengths.
\<close>

definition in_range_pair :: "fl \<times> fl \<Rightarrow> bool" where
  "in_range_pair p \<longleftrightarrow> missing_pair p \<or> (valid_pair p \<and> \<bar>real_of (fst p)\<bar> * tiny < 1)"

definition is_max_mean :: "spectrum \<Rightarrow> spectrum \<Rightarrow> nat \<Rightarrow> real \<Rightarrow> bool" where
  "is_max_mean S T W mx \<longleftrightarrow>
     (\<exists>w < W. \<exists>c < 4. valid_pair (cell S w c, cell T w c) \<and> cell S w c = Fin mx) \<and>
     (\<forall>w < W. \<forall>c < 4. valid_pair (cell S w c, cell T w c) \<longrightarrow> real_of (cell S w c) \<le> mx)"

section \<open>Overlap scores\<close>

lemma isnan_fl_add: "isnan (fl_add a b) \<longleftrightarrow> isnan a \<or> isnan b \<or> opposite_inf a b"
  by (cases a; cases b) (simp_all add: opposite_inf_def)

lemma channels_rgbg2: "channels (rgbg2 f ra rb) = map2 f (channels ra) (channels rb)"
  by (simp add: channels_def rgbg2_def)

lemma overlap_Cons:
  "overlap (ra # A) (rb # B) =
     length (filter (\<lambda>x. \<not> isnan x) (map2 fl_add (channels ra) (channels rb))) + overlap A B"
  by (simp add: overlap_def count_not_nan_def arr2_map2_def channels_rgbg2)

lemma overlap_Nil [simp]: "overlap [] B = 0" "overlap A [] = 0"
  by (simp_all add: overlap_def count_not_nan_def arr2_map2_def)

lemma filter_add_pairs:
  "\<forall>(a, b) \<in> set (zip xs ys). \<not> opposite_inf a b \<Longrightarrow>
   length (filter (\<lambda>x. \<not> isnan x) (map2 fl_add xs ys)) =
   length (filter (\<lambda>(a, b). \<not> isnan a \<and> \<not> isnan b) (zip xs ys))"
  by (induction xs ys rule: list_induct2') (auto simp: isnan_fl_add)

lemma overlap_jointly_valid:
  "\<forall>(a, b) \<in> set (cell_pairs A B). \<not> opposite_inf a b \<Longrightarrow> overlap A B = jointly_valid_cells A B"
proof (induction A B rule: list_induct2')
  case (4 ra A rb B)
  have row: "\<forall>(a, b) \<in> set (zip (channels ra) (channels rb)). \<not> opposite_inf a b"
    using 4(2) by (auto simp: cell_pairs_def)
  have rest: "\<forall>(a, b) \<in> set (cell_pairs A B). \<not> opposite_inf a b"
    using 4(2) by (auto simp: cell_pairs_def)
  show ?case
    using 4(1)[OF rest] filter_add_pairs[OF row]
    by (simp add: overlap_Cons jointly_valid_cells_def cell_pairs_def)
qed (simp_all add: jointly_valid_cells_def cell_pairs_def)

lemma self_add_nan: "isnan (fl_add a a) = isnan a"
  by (cases a) simp_all

lemma overlap_self: "overlap A A = count_not_nan A"
proof (induction A)
  case (Cons r A)
  have "length (filter (\<lambda>x. \<not> isnan x) (map2 fl_add (channels r) (channels r)))
        = length (filter (\<lambda>x. \<not> isnan x) (channels r))"
    by (simp add: channels_def self_add_nan)
  with Cons show ?case
    by (simp add: overlap_Cons) (simp add: count_not_nan_def)
qed (simp add: count_not_nan_def)

text \<open>
  C7. The overlap score of a spectrum with itself is the number of its cells that are not
  missing. The overlap score of two spectra is the number of cells in which both are not
  missing, provided that no cell holds \<open>+inf\<close> in one spectrum and \<open>-inf\<close> in the other
  (the sum of such a pair is NaN, and the script counts the cells of the sum).
\<close>

theorem overlap_counts_valid_cells:
  "overlap A A = count_not_nan A \<and>
   ((\<forall>(a, b) \<in> set (cell_pairs A B). \<not> opposite_inf a b) \<longrightarrow> overlap A B = jointly_valid_cells A B)"
  using overlap_self overlap_jointly_valid by blast

theorem overlap_counts_valid_cells_witness:
  "overlap [RGBG (Fin 1) (Fin 2) NaN (Fin 3), nan_row] [RGBG (Fin 1) NaN NaN PInf, RGBG (Fin 1) (Fin 1) (Fin 1) (Fin 1)]
     = jointly_valid_cells [RGBG (Fin 1) (Fin 2) NaN (Fin 3), nan_row]
         [RGBG (Fin 1) NaN NaN PInf, RGBG (Fin 1) (Fin 1) (Fin 1) (Fin 1)] \<and>
   jointly_valid_cells [RGBG (Fin 1) (Fin 2) NaN (Fin 3), nan_row]
         [RGBG (Fin 1) NaN NaN PInf, RGBG (Fin 1) (Fin 1) (Fin 1) (Fin 1)] = 2"
proof -
  have "\<forall>(a, b) \<in> set (cell_pairs [RGBG (Fin 1) (Fin 2) NaN (Fin 3), nan_row]
          [RGBG (Fin 1) NaN NaN PInf, RGBG (Fin 1) (Fin 1) (Fin 1) (Fin 1)]). \<not> opposite_inf a b"
    by (simp add: cell_pairs_def channels_def nan_row_def opposite_inf_def)
  then show ?thesis
    using overlap_counts_valid_cells
      [of "[RGBG (Fin 1) (Fin 2) NaN (Fin 3), nan_row]"
          "[RGBG (Fin 1) NaN NaN PInf, RGBG (Fin 1) (Fin 1) (Fin 1) (Fin 1)]"]
    by (simp add: jointly_valid_cells_def cell_pairs_def channels_def nan_row_def)
qed

text \<open>
  C7, as the specification states it, fails on infinities of opposite sign. A spectrum that
  holds \<open>+inf\<close> in two cells and another that holds \<open>-inf\<close> in the same cells are both
  non-missing in all four cells of the row, and their overlap score is 2: the sum of the
  two infinities is NaN, and line 114 counts the cells of the sum that are not NaN.
\<close>

theorem overlap_of_opposite_infinities:
  "overlap [RGBG PInf PInf (Fin 1) (Fin 1)] [RGBG NInf NInf (Fin 1) (Fin 1)] = 2 \<and>
   jointly_valid_cells [RGBG PInf PInf (Fin 1) (Fin 1)] [RGBG NInf NInf (Fin 1) (Fin 1)] = 4"
  by (simp add: overlap_def count_not_nan_def arr2_map2_def rgbg2_def channels_def
      jointly_valid_cells_def cell_pairs_def)

section \<open>Grid alignment\<close>

lemma length_assign_rows [simp]: "length (assign_rows arr idx rows) = length arr"
proof -
  have "length (fold (\<lambda>(j, r) a. a[j := r]) ps arr) = length arr" for ps
    by (induction ps arbitrary: arr) (auto split: prod.splits)
  then show ?thesis by (simp add: assign_rows_def)
qed

lemma assign_rows_other:
  "j \<notin> set idx \<Longrightarrow> assign_rows arr idx rows ! j = arr ! j"
proof -
  have "j \<notin> fst ` set ps \<Longrightarrow> fold (\<lambda>(j, r) a. a[j := r]) ps arr ! j = arr ! j" for ps
    by (induction ps arbitrary: arr) (auto split: prod.splits)
  moreover have "j \<notin> set idx \<Longrightarrow> j \<notin> fst ` set (zip idx rows)"
    by (auto dest: set_zip_leftD)
  ultimately show "j \<notin> set idx \<Longrightarrow> assign_rows arr idx rows ! j = arr ! j"
    by (simp add: assign_rows_def)
qed

lemma assign_rows_hit:
  assumes "distinct idx" "length rows = length idx" "k < length idx" "idx ! k < length arr"
  shows "assign_rows arr idx rows ! (idx ! k) = rows ! k"
  using assms
proof (induction idx arbitrary: rows arr k)
  case Nil
  then show ?case by simp
next
  case (Cons i idx)
  then obtain r rs where rows: "rows = r # rs" by (cases rows) auto
  have step: "assign_rows arr (i # idx) (r # rs) = assign_rows (arr[i := r]) idx rs"
    by (simp add: assign_rows_def)
  show ?case
  proof (cases k)
    case 0
    then have "i \<notin> set idx" "i < length arr" using Cons.prems by auto
    then show ?thesis using 0 by (simp add: step assign_rows_other rows)
  next
    case (Suc k')
    then show ?thesis using Cons.prems Cons.IH[of rs k' "arr[i := r]"]
      by (simp add: step rows)
  qed
qed

lemma sorted_wrt_less_unique: "sorted_wrt (<) (np_unique xs)"
  by (simp add: np_unique_def strict_sorted_iff)

lemma set_np_unique [simp]: "set (np_unique xs) = set xs"
  by (simp add: np_unique_def)

lemma searchsorted_nth:
  assumes "sorted_wrt (<) a" "j < length a"
  shows "searchsorted a (a ! j) = j"
  using assms
proof (induction a arbitrary: j)
  case Nil
  then show ?case by simp
next
  case (Cons x a)
  show ?case
  proof (cases j)
    case 0
    then show ?thesis by (simp add: searchsorted_def)
  next
    case (Suc j')
    then have "x < a ! j'" using Cons.prems by auto
    then show ?thesis using Cons Suc by (simp add: searchsorted_def)
  qed
qed

lemma searchsorted_member:
  assumes "sorted_wrt (<) a" "v \<in> set a"
  shows "searchsorted a v < length a \<and> a ! searchsorted a v = v"
proof -
  from assms(2) obtain j where "j < length a" "a ! j = v" by (auto simp: in_set_conv_nth)
  then show ?thesis using searchsorted_nth[OF assms(1), of j] by auto
qed


lemma sequence_map_Inr:
  "sequence (map (\<lambda>i. Inr (g i)) xs) = Inr (map g xs)"
  by (induction xs) simp_all

lemma sequence_all_Inr:
  assumes "\<forall>i \<in> set xs. f i = Inr (g i)"
  shows "sequence (map f xs) = Inr (map g xs)"
  using assms by (induction xs) simp_all

lemma align_one_Inr:
  "length mean = length wvl \<Longrightarrow>
   align_one G wvl mean = Inr (assign_rows (replicate (length G) nan_row) (map (searchsorted G) wvl) mean)"
  by (simp add: align_one_def broadcast_rows_def)

lemma set_all_wavelengths_of: "set (all_wavelengths_of wavelengths) = \<Union> (set ` set wavelengths)"
  by (simp add: all_wavelengths_of_def)

lemma sorted_all_wavelengths_of: "sorted_wrt (<) (all_wavelengths_of wavelengths)"
  by (simp add: all_wavelengths_of_def sorted_wrt_less_unique)

lemma distinct_searchsorted:
  assumes "sorted_wrt (<) G" "distinct wvl" "set wvl \<subseteq> set G"
  shows "distinct (map (searchsorted G) wvl)"
proof -
  have "inj_on (searchsorted G) (set wvl)"
  proof (rule inj_onI)
    fix x y assume "x \<in> set wvl" "y \<in> set wvl" "searchsorted G x = searchsorted G y"
    then show "x = y"
      using searchsorted_member[OF assms(1), of x] searchsorted_member[OF assms(1), of y] assms(3)
      by (metis subsetD)
  qed
  then show ?thesis using assms(2) by (simp add: distinct_map)
qed

lemma align_one_rows:
  assumes G: "sorted_wrt (<) G" and d: "distinct wvl" and sub: "set wvl \<subseteq> set G"
    and len: "length mean = length wvl"
  defines "S \<equiv> assign_rows (replicate (length G) nan_row) (map (searchsorted G) wvl) mean"
  shows "length S = length G"
    and "\<forall>k < length wvl. searchsorted G (wvl ! k) < length G \<and> G ! searchsorted G (wvl ! k) = wvl ! k
            \<and> S ! searchsorted G (wvl ! k) = mean ! k"
    and "\<forall>j < length G. G ! j \<notin> set wvl \<longrightarrow> S ! j = nan_row"
proof -
  show "length S = length G" by (simp add: S_def)
  show "\<forall>k < length wvl. searchsorted G (wvl ! k) < length G \<and> G ! searchsorted G (wvl ! k) = wvl ! k
            \<and> S ! searchsorted G (wvl ! k) = mean ! k"
  proof (intro allI impI)
    fix k assume k: "k < length wvl"
    then have mem: "wvl ! k \<in> set G" using sub by auto
    have in_range: "searchsorted G (wvl ! k) < length G" and at_v: "G ! searchsorted G (wvl ! k) = wvl ! k"
      using searchsorted_member[OF G mem] by auto
    have "S ! (map (searchsorted G) wvl ! k) = mean ! k"
      unfolding S_def
      using distinct_searchsorted[OF G d sub] len k in_range
      by (intro assign_rows_hit) simp_all
    then show "searchsorted G (wvl ! k) < length G \<and> G ! searchsorted G (wvl ! k) = wvl ! k
            \<and> S ! searchsorted G (wvl ! k) = mean ! k"
      using in_range at_v k by simp
  qed
  show "\<forall>j < length G. G ! j \<notin> set wvl \<longrightarrow> S ! j = nan_row"
  proof (intro allI impI)
    fix j assume j: "j < length G" and out: "G ! j \<notin> set wvl"
    have "j \<notin> set (map (searchsorted G) wvl)"
    proof
      assume "j \<in> set (map (searchsorted G) wvl)"
      then obtain v where v: "v \<in> set wvl" "j = searchsorted G v" by auto
      then have "G ! j = v" using searchsorted_member[OF G, of v] sub by auto
      then show False using out v by simp
    qed
    then show "S ! j = nan_row" using j by (simp add: S_def assign_rows_other)
  qed
qed

text \<open>
  C2. The global grid is the sorted union of the wavelengths of the configurations, without
  duplicates and strictly increasing. For configurations whose wavelengths are distinct and
  as many as their rows, the alignment succeeds: every measured row is at the index of its
  wavelength in the grid, which \<open>searchsorted\<close> finds, and every row of the grid whose
  wavelength the configuration did not measure is missing in all four channels.
\<close>

theorem grid_aligner:
  assumes "length means = length wavelengths"
    and "\<forall>i < length wavelengths. distinct (wavelengths ! i) \<and> length (means ! i) = length (wavelengths ! i)"
  shows "sorted_wrt (<) (all_wavelengths_of wavelengths) \<and>
         set (all_wavelengths_of wavelengths) = \<Union> (set ` set wavelengths) \<and>
         (\<exists>all_means. align_all wavelengths means (length wavelengths) = Inr all_means \<and>
            length all_means = length wavelengths \<and>
            (\<forall>i < length wavelengths.
               length (all_means ! i) = length (all_wavelengths_of wavelengths) \<and>
               (\<forall>k < length (wavelengths ! i).
                  searchsorted (all_wavelengths_of wavelengths) (wavelengths ! i ! k)
                    < length (all_wavelengths_of wavelengths) \<and>
                  all_wavelengths_of wavelengths ! searchsorted (all_wavelengths_of wavelengths) (wavelengths ! i ! k)
                    = wavelengths ! i ! k \<and>
                  all_means ! i ! searchsorted (all_wavelengths_of wavelengths) (wavelengths ! i ! k)
                    = means ! i ! k) \<and>
               (\<forall>j < length (all_wavelengths_of wavelengths).
                  all_wavelengths_of wavelengths ! j \<notin> set (wavelengths ! i) \<longrightarrow>
                  all_means ! i ! j = nan_row)))"
proof -
  define G where "G = all_wavelengths_of wavelengths"
  define g where "g i = assign_rows (replicate (length G) nan_row)
      (map (searchsorted G) (wavelengths ! i)) (means ! i)" for i
  have G: "sorted_wrt (<) G" by (simp add: G_def sorted_all_wavelengths_of)
  have sub: "set (wavelengths ! i) \<subseteq> set G" if "i < length wavelengths" for i
    using nth_mem[OF that] by (fastforce simp: G_def set_all_wavelengths_of)
  have di: "distinct (wavelengths ! i)" and li: "length (means ! i) = length (wavelengths ! i)"
    if "i < length wavelengths" for i
    using assms(2) that by auto
  have "align_all wavelengths means (length wavelengths) = Inr (map g [0..<length wavelengths])"
    unfolding align_all_def Let_def G_def[symmetric]
    by (rule sequence_all_Inr) (use assms(2) in \<open>simp add: align_one_Inr g_def\<close>)
  moreover have "length (g i) = length G" for i by (simp add: g_def)
  moreover have "\<forall>k < length (wavelengths ! i).
                  searchsorted G (wavelengths ! i ! k) < length G \<and>
                  G ! searchsorted G (wavelengths ! i ! k) = wavelengths ! i ! k \<and>
                  g i ! searchsorted G (wavelengths ! i ! k) = means ! i ! k"
    if "i < length wavelengths" for i
    unfolding g_def by (rule align_one_rows(2)[OF G di[OF that] sub[OF that] li[OF that]])
  moreover have "\<forall>j < length G. G ! j \<notin> set (wavelengths ! i) \<longrightarrow> g i ! j = nan_row"
    if "i < length wavelengths" for i
    unfolding g_def by (rule align_one_rows(3)[OF G di[OF that] sub[OF that] li[OF that]])
  ultimately show ?thesis
    unfolding G_def[symmetric]
    using G by (simp add: G_def set_all_wavelengths_of)
qed


theorem grid_aligner_witness:
  "all_wavelengths_of [[400, 420], [410, 420]] = [400, 410, 420] \<and>
   (\<exists>all_means.
      align_all [[400, 420], [410, 420]]
        [[RGBG (Fin 1) (Fin 1) (Fin 1) (Fin 1), RGBG (Fin 2) (Fin 2) (Fin 2) (Fin 2)],
         [RGBG (Fin 3) (Fin 3) (Fin 3) (Fin 3), RGBG (Fin 4) (Fin 4) (Fin 4) (Fin 4)]] 2 = Inr all_means \<and>
      all_means ! 1 ! 1 = RGBG (Fin 3) (Fin 3) (Fin 3) (Fin 3) \<and>
      all_means ! 1 ! 0 = nan_row)"
proof -
  define ws :: "real list list" where "ws = [[400, 420], [410, 420]]"
  define ms :: "spectrum list" where
    "ms = [[RGBG (Fin 1) (Fin 1) (Fin 1) (Fin 1), RGBG (Fin 2) (Fin 2) (Fin 2) (Fin 2)],
           [RGBG (Fin 3) (Fin 3) (Fin 3) (Fin 3), RGBG (Fin 4) (Fin 4) (Fin 4) (Fin 4)]]"
  have grid: "all_wavelengths_of ws = [400, 410, 420]"
    by (simp add: ws_def all_wavelengths_of_def np_unique_def)
  have h1: "length ms = length ws" by (simp add: ws_def ms_def)
  have h2: "\<forall>i < length ws. distinct (ws ! i) \<and> length (ms ! i) = length (ws ! i)"
    by (simp add: ws_def ms_def less_Suc_eq numeral_2_eq_2)
  from grid_aligner[OF h1 h2] obtain all_means where
    run: "align_all ws ms (length ws) = Inr all_means" and
    rows: "\<forall>i < length ws.
             (\<forall>k < length (ws ! i).
                all_means ! i ! searchsorted (all_wavelengths_of ws) (ws ! i ! k) = ms ! i ! k) \<and>
             (\<forall>j < length (all_wavelengths_of ws).
                all_wavelengths_of ws ! j \<notin> set (ws ! i) \<longrightarrow> all_means ! i ! j = nan_row)"
    by blast
  have "1 < length ws" "0 < length (ws ! 1)" "0 < length (all_wavelengths_of ws)"
    using grid by (simp_all add: ws_def)
  with rows have "all_means ! 1 ! searchsorted (all_wavelengths_of ws) (ws ! 1 ! 0) = ms ! 1 ! 0"
    and "all_wavelengths_of ws ! 0 \<notin> set (ws ! 1) \<longrightarrow> all_means ! 1 ! 0 = nan_row"
    by blast+
  then have "all_means ! 1 ! 1 = RGBG (Fin 3) (Fin 3) (Fin 3) (Fin 3)" "all_means ! 1 ! 0 = nan_row"
    by (simp_all add: grid) (simp_all add: ws_def ms_def searchsorted_def)
  with run grid show ?thesis
    by (auto simp: ws_def ms_def numeral_2_eq_2)
qed

section \<open>The Combiner, cell by cell\<close>

lemma channels_nth_cases:
  "c < 4 \<Longrightarrow> c = 0 \<or> c = 1 \<or> c = 2 \<or> c = (3::nat)"
  by arith

lemma channels_map_rgbg: "c < 4 \<Longrightarrow> channels (map_rgbg f r) ! c = f (channels r ! c)"
  by (cases r) (auto simp: channels_def dest!: channels_nth_cases)

lemma channels_rgbg2_nth: "c < 4 \<Longrightarrow> channels (rgbg2 f a b) ! c = f (channels a ! c) (channels b ! c)"
  by (auto simp: channels_def rgbg2_def dest!: channels_nth_cases)

lemma channels_selectors:
  "c < 4 \<Longrightarrow> channels (map_rgbg (\<lambda>sel. f (column A w sel)) selectors) ! c = f (col A w c)"
  by (auto simp: channels_def selectors_def column_def col_def cell_def dest!: channels_nth_cases)

lemma wide_nth: "wide w A \<Longrightarrow> S \<in> set A \<Longrightarrow> w < length S"
  by (simp add: wide_def list_all_iff)

lemma cell_arr2_map: "w < length R \<Longrightarrow> c < 4 \<Longrightarrow> cell (arr2_map f R) w c = f (cell R w c)"
  by (simp add: cell_def arr2_map_def channels_map_rgbg)

lemma cell_arr2_map2:
  "w < length R \<Longrightarrow> w < length Q \<Longrightarrow> c < 4 \<Longrightarrow> cell (arr2_map2 f R Q) w c = f (cell R w c) (cell Q w c)"
  by (simp add: cell_def arr2_map2_def channels_rgbg2_nth)

lemma length_axis0 [simp]: "length (axis0 f W A) = W"
  by (simp add: axis0_def)

lemma cell_axis0: "w < W \<Longrightarrow> c < 4 \<Longrightarrow> cell (axis0 f W A) w c = f (col A w c)"
  by (simp add: cell_def axis0_def channels_selectors)

lemma col_arr3_map: "wide w A \<Longrightarrow> c < 4 \<Longrightarrow> col (arr3_map f A) w c = map f (col A w c)"
  by (auto simp: col_def arr3_map_def cell_arr2_map dest: wide_nth)

lemma col_arr3_map2:
  "wide w A \<Longrightarrow> wide w B \<Longrightarrow> c < 4 \<Longrightarrow>
   col (arr3_map2 f A B) w c = map2 f (col A w c) (col B w c)"
proof (induction A B rule: list_induct2')
  case (4 S A T B)
  then have "w < length S" "w < length T" "wide w A" "wide w B"
    by (simp_all add: wide_def)
  with 4 show ?case
    by (simp add: col_def arr3_map2_def cell_arr2_map2)
qed (simp_all add: col_def arr3_map2_def)

lemma col_bcast2:
  "wide w A \<Longrightarrow> w < length R \<Longrightarrow> c < 4 \<Longrightarrow>
   col (bcast2 f A R) w c = map (\<lambda>a. f a (cell R w c)) (col A w c)"
  by (auto simp: col_def bcast2_def cell_arr2_map2 dest: wide_nth)

lemma wide_arr3_map [simp]: "wide w (arr3_map f A) = wide w A"
  by (simp add: wide_def arr3_map_def arr2_map_def list_all_iff)

lemma wide_arr3_map2: "wide w A \<Longrightarrow> wide w B \<Longrightarrow> wide w (arr3_map2 f A B)"
  by (auto simp: wide_def arr3_map2_def arr2_map2_def list_all_iff dest!: set_zip_leftD set_zip_rightD
           elim!: in_set_zipE)

lemma wide_bcast2: "wide w A \<Longrightarrow> w < length R \<Longrightarrow> wide w (bcast2 f A R)"
  by (auto simp: wide_def bcast2_def arr2_map2_def list_all_iff)

lemma wide_ma_power2_arr [simp]: "wide w (ma_power2_arr A) = wide w A"
  by (simp add: ma_power2_arr_def)

lemma col_ma_power2_arr:
  "wide w A \<Longrightarrow> c < 4 \<Longrightarrow>
   col (ma_power2_arr A) w c = map ma_power2 (col A w c)"
  by (simp add: ma_power2_arr_def col_arr3_map)


lemma length_col [simp]: "length (col A w c) = length A"
  by (simp add: col_def)

lemma col_weights_of:
  assumes "wide w M" "wide w Sd" "c < 4" "length M = length Sd"
  shows "col (weights_of M Sd) w c = map weight_cell (zip (col M w c) (col Sd w c))"
proof -
  have "wide w (arr3_map ma_array (arr3_map2 fl_div M Sd))"
    using assms by (simp add: wide_arr3_map2)
  then show ?thesis
    unfolding weights_of_def Let_def
    using assms
    by (auto simp: col_ma_power2_arr col_arr3_map col_arr3_map2 wide_arr3_map2 weight_cell_def
          list_eq_iff_nth_eq)
qed

lemma wide_weights_of: "wide w M \<Longrightarrow> wide w Sd \<Longrightarrow> wide w (weights_of M Sd)"
  by (simp add: weights_of_def wide_arr3_map2)

lemma flat_means_cell:
  assumes "wide w M" "wide w Sd" "c < 4" "length M = length Sd" "w < W"
  shows "cell (flat_means_mask_of W M Sd) w c = mean_col (zip (col M w c) (col Sd w c))"
proof -
  have cw: "col (weights_of M Sd) w c = map weight_cell (zip (col M w c) (col Sd w c))"
    by (rule col_weights_of[OF assms(1,2,3,4)])
  have ww: "wide w (weights_of M Sd)" using assms by (simp add: wide_weights_of)
  have wm: "wide w (arr3_map ma_array M)" using assms by simp
  have wg: "wide w (arr3_map2 average_wgt (arr3_map ma_array M) (weights_of M Sd))"
    using wm ww by (rule wide_arr3_map2)
  have cg: "col (arr3_map2 average_wgt (arr3_map ma_array M) (weights_of M Sd)) w c
            = map wgt_cell (zip (col M w c) (col Sd w c))"
    using assms wm ww
    by (simp add: col_arr3_map2 col_arr3_map cw list_eq_iff_nth_eq wgt_cell_def)
  have cn: "col (arr3_map2 np_multiply (arr3_map ma_array M)
                  (arr3_map2 average_wgt (arr3_map ma_array M) (weights_of M Sd))) w c
            = map (\<lambda>p. np_multiply (ma_array (fst p)) (wgt_cell p)) (zip (col M w c) (col Sd w c))"
    using assms wm wg
    by (simp add: col_arr3_map2 col_arr3_map cg list_eq_iff_nth_eq)
  have "cell (flat_means_mask_of W M Sd) w c = mean_col (zip (col M w c) (col Sd w c))"
    unfolding flat_means_mask_of_def ma_average_def Let_def mean_col_def
    using assms by (simp add: cell_arr2_map2 cell_axis0 cg cn)
  then show ?thesis .
qed

lemma flat_errs_cell:
  assumes "wide w M" "wide w Sd" "c < 4" "length M = length Sd" "w < W"
  shows "cell (flat_errs_mask_of W M Sd) w c = err_col (zip (col M w c) (col Sd w c))"
proof -
  have cw: "col (weights_of M Sd) w c = map weight_cell (zip (col M w c) (col Sd w c))"
    by (rule col_weights_of[OF assms(1,2,3,4)])
  define tot where "tot = axis0 ma_sum W (weights_of M Sd)"
  define P where "P = arr3_map2 ma_multiply (bcast2 ma_true_divide (weights_of M Sd) tot) (arr3_map ma_array Sd)"
  have ww: "wide w (weights_of M Sd)" using assms by (simp add: wide_weights_of)
  have ws: "wide w (arr3_map ma_array Sd)" using assms by simp
  have wb: "wide w (bcast2 ma_true_divide (weights_of M Sd) tot)"
    using ww assms by (simp add: wide_bcast2 tot_def)
  have wP: "wide w P" unfolding P_def using wb ws by (rule wide_arr3_map2)
  have ct: "cell tot w c = ma_sum (map weight_cell (zip (col M w c) (col Sd w c)))"
    using assms by (simp add: tot_def cell_axis0 cw)
  have cb: "col (bcast2 ma_true_divide (weights_of M Sd) tot) w c
            = map (\<lambda>p. ma_true_divide (weight_cell p) (cell tot w c)) (zip (col M w c) (col Sd w c))"
    using ww assms by (simp add: col_bcast2 tot_def cw)
  have cP: "col P w c = map (\<lambda>p. ma_multiply (ma_true_divide (weight_cell p) (cell tot w c)) (ma_array (snd p)))
                          (zip (col M w c) (col Sd w c))"
    unfolding P_def using wb ws assms
    by (simp add: col_arr3_map2 col_arr3_map cb list_eq_iff_nth_eq)
  have cq: "col (ma_power2_arr P) w c = map ma_power2 (col P w c)"
    by (rule col_ma_power2_arr[OF wP assms(3)])
  have "cell (flat_errs_mask_of W M Sd) w c = err_col (zip (col M w c) (col Sd w c))"
    unfolding flat_errs_mask_of_def Let_def err_col_def tot_def[symmetric] P_def[symmetric]
    using assms by (simp add: cell_arr2_map cell_axis0 cq cP ct err_cell_def[abs_def] comp_def)
  then show ?thesis by blast
qed

lemma tiny_pos: "0 < tiny" and tiny_less_1: "tiny < 1"
  by (simp_all add: tiny_def)

lemma valid_pairE:
  assumes "valid_pair p"
  obtains x y where "p = (Fin x, Fin y)" "y \<noteq> 0"
  using assms by (cases p; cases "fst p"; cases "snd p") (auto simp: valid_pair_def)

lemma valid_not_missing: "valid_pair p \<Longrightarrow> \<not> missing_pair p"
  by (auto elim!: valid_pairE simp: missing_pair_def)

lemma fl_div_missing: "missing_pair p \<Longrightarrow> fl_div (fst p) (snd p) = NaN"
  by (cases "fst p"; cases "snd p") (auto simp: missing_pair_def)

lemma weight_cell_valid: "valid_pair p \<Longrightarrow> weight_cell p = MCell (Fin (weight_of p)) False"
  by (auto elim!: valid_pairE simp: weight_cell_def ma_array_def ma_power2_def weight_of_def)

lemma weight_cell_missing: "missing_pair p \<Longrightarrow> weight_cell p = MCell fill_value True"
  by (simp add: weight_cell_def fl_div_missing ma_array_def ma_power2_def)

lemma wgt_cell_valid:
  assumes "valid_pair p"
  shows "wgt_cell p = MCell (Fin (weight_of p)) False"
proof -
  from assms obtain x y where "p = (Fin x, Fin y)" by (rule valid_pairE)
  then show ?thesis
    using weight_cell_valid[OF assms]
    by (simp add: wgt_cell_def average_wgt_def ma_array_def ma_multiply_def)
qed

lemma wgt_cell_missing: "missing_pair p \<Longrightarrow> mask (wgt_cell p)"
  by (simp add: wgt_cell_def weight_cell_missing average_wgt_def ma_multiply_def)

lemma num_cell_valid:
  assumes "valid_pair p"
  shows "np_multiply (ma_array (fst p)) (wgt_cell p) = MCell (Fin (weight_of p * real_of (fst p))) False"
proof -
  from assms obtain x y where "p = (Fin x, Fin y)" by (rule valid_pairE)
  then show ?thesis
    using wgt_cell_valid[OF assms]
    by (simp add: np_multiply_def ma_array_def mult.commute)
qed

lemma num_cell_missing: "missing_pair p \<Longrightarrow> mask (np_multiply (ma_array (fst p)) (wgt_cell p))"
  using wgt_cell_missing[of p] by (simp add: np_multiply_def)

text \<open>The sum of a column whose cells are finite where the pair is valid and masked elsewhere.\<close>

lemma foldl_filled:
  assumes "\<forall>p \<in> set ps. if valid_pair p then F p = MCell (Fin (g p)) False else mask (F p)"
  shows "foldl fl_add (Fin a) (map (\<lambda>c. if mask c then Fin 0 else data c) (map F ps))
         = Fin (a + sum_list (map g (filter valid_pair ps)))"
  using assms by (induction ps arbitrary: a) (auto simp: add.assoc)

lemma list_all_mask:
  assumes "\<forall>p \<in> set ps. if valid_pair p then F p = MCell (Fin (g p)) False else mask (F p)"
  shows "list_all mask (map F ps) = (filter valid_pair ps = [])"
  using assms by (induction ps) auto

lemma ma_sum_column:
  assumes "\<forall>p \<in> set ps. if valid_pair p then F p = MCell (Fin (g p)) False else mask (F p)"
  shows "ma_sum (map F ps) = MCell (Fin (sum_list (map g (filter valid_pair ps)))) (filter valid_pair ps = [])"
  unfolding ma_sum_def
  using foldl_filled[OF assms, where a = 0] list_all_mask[OF assms] by simp

lemma column_cases:
  assumes "\<forall>p \<in> set ps. valid_pair p \<or> missing_pair p"
    and "\<And>p. p \<in> set ps \<Longrightarrow> valid_pair p \<Longrightarrow> F p = MCell (Fin (g p)) False"
    and "\<And>p. missing_pair p \<Longrightarrow> mask (F p)"
  shows "\<forall>p \<in> set ps. if valid_pair p then F p = MCell (Fin (g p)) False else mask (F p)"
proof
  fix p assume p: "p \<in> set ps"
  show "if valid_pair p then F p = MCell (Fin (g p)) False else mask (F p)"
  proof (cases "valid_pair p")
    case True
    then show ?thesis using assms(2)[OF p] by simp
  next
    case False
    then have "missing_pair p" using assms(1) p by blast
    then show ?thesis using False assms(3) by simp
  qed
qed

lemma sum_wgt:
  "\<forall>p \<in> set ps. valid_pair p \<or> missing_pair p \<Longrightarrow>
   ma_sum (map wgt_cell ps) = MCell (Fin (sum_weights ps)) (filter valid_pair ps = [])"
  unfolding sum_weights_def
  by (rule ma_sum_column, rule column_cases) (simp_all add: wgt_cell_valid wgt_cell_missing)

lemma sum_weight_cells:
  "\<forall>p \<in> set ps. valid_pair p \<or> missing_pair p \<Longrightarrow>
   ma_sum (map weight_cell ps) = MCell (Fin (sum_weights ps)) (filter valid_pair ps = [])"
  unfolding sum_weights_def
  by (rule ma_sum_column, rule column_cases) (simp_all add: weight_cell_valid weight_cell_missing)

lemma sum_num:
  "\<forall>p \<in> set ps. valid_pair p \<or> missing_pair p \<Longrightarrow>
   ma_sum (map (\<lambda>p. np_multiply (ma_array (fst p)) (wgt_cell p)) ps)
     = MCell (Fin (sum_weighted_means ps)) (filter valid_pair ps = [])"
  unfolding sum_weighted_means_def
  by (rule ma_sum_column, rule column_cases) (simp_all add: num_cell_valid num_cell_missing)

lemma sum_weights_nonneg: "0 \<le> sum_weights ps"
  unfolding sum_weights_def by (rule sum_list_nonneg) (auto simp: weight_of_def)

lemma no_valid_sum_weights: "filter valid_pair ps = [] \<Longrightarrow> sum_weights ps = 0"
  by (simp add: sum_weights_def)

lemma no_valid_sum_means: "filter valid_pair ps = [] \<Longrightarrow> sum_weighted_means ps = 0"
  by (simp add: sum_weighted_means_def)

text \<open>The combined mean of a column.\<close>

lemma mean_col_valid:
  assumes "\<forall>p \<in> set ps. valid_pair p \<or> missing_pair p"
    and "0 < sum_weights ps"
    and "\<bar>sum_weighted_means ps\<bar> * tiny < sum_weights ps"
  shows "mean_col ps = MCell (Fin (sum_weighted_means ps / sum_weights ps)) False"
proof -
  have "filter valid_pair ps \<noteq> []"
    using assms(2) no_valid_sum_weights[of ps] by auto
  then show ?thesis
    using assms(2,3)
    by (simp add: mean_col_def sum_wgt[OF assms(1)] sum_num[OF assms(1)] ma_true_divide_def
        domain_safe_divide_def)
qed

lemma mean_col_missing:
  assumes "\<forall>p \<in> set ps. missing_pair p"
  shows "mean_col ps = MCell (Fin 0) True"
proof -
  have a: "\<forall>p \<in> set ps. valid_pair p \<or> missing_pair p" using assms by simp
  have "filter valid_pair ps = []"
    using assms valid_not_missing by (auto simp: filter_empty_conv)
  then show ?thesis
    by (simp add: mean_col_def sum_wgt[OF a] sum_num[OF a] ma_true_divide_def
        no_valid_sum_means)
qed


text \<open>The combined error of a column.\<close>

lemma weight_le_sum:
  assumes "valid_pair p" "p \<in> set ps"
  shows "weight_of p \<le> sum_weights ps"
  unfolding sum_weights_def
  by (rule member_le_sum_list) (use assms in \<open>auto simp: weight_of_def\<close>)

lemma err_cell_valid:
  assumes "valid_pair p" "p \<in> set ps" "0 < sum_weights ps"
  shows "err_cell (MCell (Fin (sum_weights ps)) False) p
         = MCell (Fin ((weight_of p / sum_weights ps * real_of (snd p)) ^ 2)) False"
proof -
  from assms(1) obtain x y where p: "p = (Fin x, Fin y)" by (rule valid_pairE)
  have "0 \<le> weight_of p" by (simp add: weight_of_def)
  moreover have "weight_of p \<le> sum_weights ps" using assms(1,2) by (rule weight_le_sum)
  moreover have "weight_of p * tiny \<le> weight_of p"
    using \<open>0 \<le> weight_of p\<close> tiny_less_1 by (simp add: mult_left_le)
  ultimately have dom: "\<not> \<bar>sum_weights ps\<bar> \<le> \<bar>weight_of p\<bar> * tiny"
    using assms(3) tiny_pos tiny_less_1
    by (smt (verit) mult_less_cancel_left2 mult_nonneg_nonneg)
  show ?thesis
    unfolding err_cell_def weight_cell_valid[OF assms(1)]
    using assms(3) dom
    by (simp add: ma_true_divide_def domain_safe_divide_def ma_multiply_def ma_array_def
        ma_power2_def p Let_def)
qed

lemma err_cell_missing:
  assumes "missing_pair p"
  shows "mask (err_cell tot p)"
  by (simp add: err_cell_def weight_cell_missing[OF assms] ma_true_divide_def ma_multiply_def
      ma_power2_def fill_value_def Let_def)

lemma sum_squared_errors_nonneg: "0 \<le> sum_squared_errors ps"
  unfolding sum_squared_errors_def by (rule sum_list_nonneg) auto

lemma err_col_valid:
  assumes "\<forall>p \<in> set ps. valid_pair p \<or> missing_pair p"
    and "0 < sum_weights ps"
  shows "err_col ps = MCell (Fin (sqrt (sum_squared_errors ps))) False"
proof -
  have ne: "filter valid_pair ps \<noteq> []"
    using assms(2) no_valid_sum_weights[of ps] by auto
  have tot: "ma_sum (map weight_cell ps) = MCell (Fin (sum_weights ps)) False"
    using sum_weight_cells[OF assms(1)] ne by simp
  have "ma_sum (map (err_cell (MCell (Fin (sum_weights ps)) False)) ps)
        = MCell (Fin (sum_squared_errors ps)) False"
    unfolding sum_squared_errors_def
    using ne
    by (subst ma_sum_column[OF column_cases[OF assms(1),
              where g = "\<lambda>p. (weight_of p / sum_weights ps * real_of (snd p)) ^ 2"]])
       (simp_all add: err_cell_valid[OF _ _ assms(2)] err_cell_missing)
  then show ?thesis
    using sum_squared_errors_nonneg[of ps]
    by (simp add: err_col_def tot ma_sqrt_def fl_less_def)
qed

lemma err_col_missing:
  assumes "\<forall>p \<in> set ps. missing_pair p"
  shows "err_col ps = MCell (Fin 0) True"
proof -
  have none: "filter valid_pair ps = []"
    using assms valid_not_missing by (auto simp: filter_empty_conv)
  have "\<forall>p \<in> set ps. if valid_pair p then err_cell tot p = MCell (Fin 0) False
          else mask (err_cell tot p)" for tot
    using assms valid_not_missing err_cell_missing by auto
  from ma_sum_column[OF this]
  have "ma_sum (map (err_cell tot) ps) = MCell (Fin 0) True" for tot
    using none by simp
  then show ?thesis
    by (simp add: err_col_def ma_sqrt_def)
qed

text \<open>A column that holds one spectrum only.\<close>

lemma single_valid:
  assumes v: "valid_pair p" and nz: "real_of (fst p) \<noteq> 0" and r: "\<bar>real_of (fst p)\<bar> * tiny < 1"
  shows "mean_col [p] = MCell (fst p) False"
    and "err_col [p] = MCell (Fin \<bar>real_of (snd p)\<bar>) False"
proof -
  from v obtain x y where p: "p = (Fin x, Fin y)" "y \<noteq> 0" by (rule valid_pairE)
  define K where "K = weight_of p"
  have K: "0 < K" using p nz by (simp add: K_def weight_of_def)
  have sw: "sum_weights [p] = K" by (simp add: sum_weights_def v K_def)
  have fp: "real_of (fst p) = x" "real_of (snd p) = y" "fst p = Fin x" by (simp_all add: p)
  have swm: "sum_weighted_means [p] = K * x" by (simp add: sum_weighted_means_def v K_def fp)
  have sse: "sum_squared_errors [p] = y ^ 2"
    using K by (simp add: sum_squared_errors_def sw v K_def[symmetric] fp)
  have h6: "\<forall>q \<in> set [p]. valid_pair q \<or> missing_pair q" using v by simp
  have h7: "0 < sum_weights [p]" using K by (simp add: sw)
  have "\<bar>K * x\<bar> * tiny = K * (\<bar>x\<bar> * tiny)" using K by (simp add: abs_mult)
  also have "\<dots> < K * 1" using K r p by (intro mult_strict_left_mono) simp_all
  finally have h8: "\<bar>sum_weighted_means [p]\<bar> * tiny < sum_weights [p]" by (simp add: sw swm)
  show "mean_col [p] = MCell (fst p) False"
    using mean_col_valid[OF h6 h7 h8] K by (simp add: sw swm fp)
  show "err_col [p] = MCell (Fin \<bar>real_of (snd p)\<bar>) False"
    using err_col_valid[OF h6 h7] by (simp add: sse fp)
qed

lemma single_zero_mean:
  assumes "valid_pair p" and "real_of (fst p) = 0"
  shows "mean_col [p] = MCell (Fin 0) True" and "err_col [p] = MCell (Fin 0) True"
proof -
  from assms(1) obtain x y where p: "p = (Fin x, Fin y)" "y \<noteq> 0" by (rule valid_pairE)
  have x: "x = 0" using assms(2) p by simp
  have fp: "fst p = Fin 0" "snd p = Fin y" by (simp_all add: p x)
  have w: "weight_cell p = MCell (Fin 0) False"
    using weight_cell_valid[OF assms(1)] by (simp add: weight_of_def fp)
  show "mean_col [p] = MCell (Fin 0) True"
    by (simp add: mean_col_def wgt_cell_def w average_wgt_def ma_array_def ma_multiply_def
        np_multiply_def ma_sum_def ma_true_divide_def fp)
  show "err_col [p] = MCell (Fin 0) True"
    by (simp add: err_col_def err_cell_def w ma_sum_def ma_true_divide_def ma_multiply_def
        ma_power2_def ma_sqrt_def Let_def)
qed

lemma col_single: "col [S] w c = [cell S w c]"
  by (simp add: col_def)

lemma single_flat_cell:
  assumes "w < W" "c < 4" "length S = W" "length T = W"
  shows "cell (flat_means_mask_of W [S] [T]) w c = mean_col [(cell S w c, cell T w c)]"
    and "cell (flat_errs_mask_of W [S] [T]) w c = err_col [(cell S w c, cell T w c)]"
proof -
  have h: "wide w [S]" "wide w [T]" "length [S] = length [T]"
    using assms by (simp_all add: wide_def)
  have z: "zip (col [S] w c) (col [T] w c) = [(cell S w c, cell T w c)]"
    by (simp add: col_single)
  show "cell (flat_means_mask_of W [S] [T]) w c = mean_col [(cell S w c, cell T w c)]"
    using flat_means_cell[OF h(1,2) assms(2) h(3) assms(1)] unfolding z .
  show "cell (flat_errs_mask_of W [S] [T]) w c = err_col [(cell S w c, cell T w c)]"
    using flat_errs_cell[OF h(1,2) assms(2) h(3) assms(1)] unfolding z .
qed

section \<open>The combined mean and its error\<close>

lemma flat_cells_valid:
  assumes "wide w M" and "wide w Sd" and "length M = length Sd" and "w < W" and "c < 4"
    and "\<forall>p \<in> set (zip (col M w c) (col Sd w c)). valid_pair p \<or> missing_pair p"
    and "0 < sum_weights (zip (col M w c) (col Sd w c))"
    and "\<bar>sum_weighted_means (zip (col M w c) (col Sd w c))\<bar> * tiny
           < sum_weights (zip (col M w c) (col Sd w c))"
  shows "cell (flat_means_mask_of W M Sd) w c =
           MCell (Fin (sum_weighted_means (zip (col M w c) (col Sd w c))
                       / sum_weights (zip (col M w c) (col Sd w c)))) False \<and>
         cell (flat_errs_mask_of W M Sd) w c =
           MCell (Fin (sqrt (sum_squared_errors (zip (col M w c) (col Sd w c))))) False"
proof -
  have "cell (flat_means_mask_of W M Sd) w c = mean_col (zip (col M w c) (col Sd w c))"
    using flat_means_cell[OF assms(1,2,5,3,4)] by blast
  moreover have
    "cell (flat_errs_mask_of W M Sd) w c = err_col (zip (col M w c) (col Sd w c))"
    using flat_errs_cell[OF assms(1,2,5,3,4)] by blast
  ultimately show ?thesis
    using mean_col_valid[OF assms(6,7,8)] err_col_valid[OF assms(6,7)] by simp
qed

text \<open>
  C1. At a cell where every spectrum is either missing or valid (finite mean, finite std
  other than zero), where the weights of the valid spectra do not all vanish and the
  weighted mean stays below \<open>1 / tiny\<close>, the combined mean is the sum of weight times mean
  over the valid spectra divided by the sum of their weights, and the combined std is the
  square root of the sum of the squares of weight / sum of weights times std, with the
  weight (mean / std) squared; neither cell is masked, and the missing spectra contribute
  to no sum.
\<close>

theorem combiner_weighted_average:
  assumes "wide w M" and "wide w Sd" and "length M = length Sd" and "w < W" and "c < 4"
    and "\<forall>p \<in> set (zip (col M w c) (col Sd w c)). valid_pair p \<or> missing_pair p"
    and "0 < sum_weights (zip (col M w c) (col Sd w c))"
    and "\<bar>sum_weighted_means (zip (col M w c) (col Sd w c))\<bar> * tiny
           < sum_weights (zip (col M w c) (col Sd w c))"
  shows "cell (flat_means_mask_of W M Sd) w c =
           MCell (Fin (sum_weighted_means (zip (col M w c) (col Sd w c))
                       / sum_weights (zip (col M w c) (col Sd w c)))) False \<and>
         cell (flat_errs_mask_of W M Sd) w c =
           MCell (Fin (sqrt (sum_squared_errors (zip (col M w c) (col Sd w c))))) False"
  using flat_cells_valid[OF assms] .

theorem combiner_weighted_average_witness:
  "cell (flat_means_mask_of 1
           [[RGBG (Fin 100) (Fin 100) (Fin 100) (Fin 100)], [RGBG (Fin 50) (Fin 50) (Fin 50) (Fin 50)], [nan_row]]
           [[RGBG (Fin 5) (Fin 5) (Fin 5) (Fin 5)], [RGBG (Fin 5) (Fin 5) (Fin 5) (Fin 5)], [nan_row]]) 0 0
     = MCell (Fin 90) False \<and>
   cell (flat_errs_mask_of 1
           [[RGBG (Fin 100) (Fin 100) (Fin 100) (Fin 100)], [RGBG (Fin 50) (Fin 50) (Fin 50) (Fin 50)], [nan_row]]
           [[RGBG (Fin 5) (Fin 5) (Fin 5) (Fin 5)], [RGBG (Fin 5) (Fin 5) (Fin 5) (Fin 5)], [nan_row]]) 0 0
     = MCell (Fin (sqrt 17)) False"
proof -
  define M :: "spectrum list" where
    "M = [[RGBG (Fin 100) (Fin 100) (Fin 100) (Fin 100)], [RGBG (Fin 50) (Fin 50) (Fin 50) (Fin 50)], [nan_row]]"
  define Sd :: "spectrum list" where
    "Sd = [[RGBG (Fin 5) (Fin 5) (Fin 5) (Fin 5)], [RGBG (Fin 5) (Fin 5) (Fin 5) (Fin 5)], [nan_row]]"
  have ps: "zip (col M 0 0) (col Sd 0 0) = [(Fin 100, Fin 5), (Fin 50, Fin 5), (NaN, NaN)]"
    by (simp add: M_def Sd_def col_def cell_def channels_def nan_row_def)
  have v: "valid_pair (Fin 100, Fin 5)" "valid_pair (Fin 50, Fin 5)" "\<not> valid_pair (NaN, NaN)"
    "missing_pair (NaN, NaN)"
    by (simp_all add: valid_pair_def missing_pair_def)
  have sw: "sum_weights (zip (col M 0 0) (col Sd 0 0)) = 500"
    by (simp add: ps sum_weights_def v weight_of_def)
  have swm: "sum_weighted_means (zip (col M 0 0) (col Sd 0 0)) = 45000"
    by (simp add: ps sum_weighted_means_def v weight_of_def)
  have sse: "sum_squared_errors (zip (col M 0 0) (col Sd 0 0)) = 17"
    by (simp add: sum_squared_errors_def sw) (simp add: ps v weight_of_def)
  have "tiny < 1 / 90" by (simp add: tiny_def)
  then have small: "\<bar>45000\<bar> * tiny < (500::real)" by simp
  have h1: "wide 0 M" and h2: "wide 0 Sd" and h3: "length M = length Sd"
    by (simp_all add: M_def Sd_def wide_def)
  have h6: "\<forall>p \<in> set (zip (col M 0 0) (col Sd 0 0)). valid_pair p \<or> missing_pair p"
    using v by (simp add: ps)
  have h7: "0 < sum_weights (zip (col M 0 0) (col Sd 0 0))" by (simp add: sw)
  have h8: "\<bar>sum_weighted_means (zip (col M 0 0) (col Sd 0 0))\<bar> * tiny
              < sum_weights (zip (col M 0 0) (col Sd 0 0))"
    using small by (simp add: sw swm)
  have "cell (flat_means_mask_of 1 M Sd) 0 0 = MCell (Fin 90) False \<and>
        cell (flat_errs_mask_of 1 M Sd) 0 0 = MCell (Fin (sqrt 17)) False"
    using combiner_weighted_average[OF h1 h2 h3 _ _ h6 h7 h8, of 1 ]
    by (simp add: sw swm sse)
  then show ?thesis by (simp add: M_def Sd_def)
qed

text \<open>
  C1, as the specification states it, fails at cells that hold a value in some spectrum and
  all of whose weights vanish or are not finite. A single spectrum with mean 0 and std 5 at
  a cell is not missing there, its weight is 0, and the division by the sum of the weights
  leaves the combined mean and the combined std masked, with 0 as the stored value. A
  spectrum with std 0 is not missing either; its weight (mean / std) squared is not finite,
  \<^verbatim>\<open>** 2\<close> masks it, and the spectrum is left out of the sums as if it were missing: with
  the means 100 and 50 and the stds 5 and 0 the combined mean is 100.
\<close>

theorem zero_mean_and_zero_std_are_dropped:
  "cell (flat_means_mask_of 1 [[RGBG (Fin 0) (Fin 0) (Fin 0) (Fin 0)]]
           [[RGBG (Fin 5) (Fin 5) (Fin 5) (Fin 5)]]) 0 0 = MCell (Fin 0) True \<and>
   cell (flat_errs_mask_of 1 [[RGBG (Fin 0) (Fin 0) (Fin 0) (Fin 0)]]
           [[RGBG (Fin 5) (Fin 5) (Fin 5) (Fin 5)]]) 0 0 = MCell (Fin 0) True \<and>
   cell (flat_means_mask_of 1
           [[RGBG (Fin 100) (Fin 100) (Fin 100) (Fin 100)], [RGBG (Fin 50) (Fin 50) (Fin 50) (Fin 50)]]
           [[RGBG (Fin 5) (Fin 5) (Fin 5) (Fin 5)], [RGBG (Fin 0) (Fin 0) (Fin 0) (Fin 0)]]) 0 0
     = MCell (Fin 100) False"
proof -
  have a: "cell [RGBG (Fin 0) (Fin 0) (Fin 0) (Fin 0)] 0 0 = Fin 0"
    "cell [RGBG (Fin 5) (Fin 5) (Fin 5) (Fin 5)] 0 0 = Fin 5"
    by (simp_all add: cell_def channels_def)
  have v: "valid_pair (Fin 0, Fin 5)" by (simp add: valid_pair_def)
  have m1: "cell (flat_means_mask_of 1 [[RGBG (Fin 0) (Fin 0) (Fin 0) (Fin 0)]]
           [[RGBG (Fin 5) (Fin 5) (Fin 5) (Fin 5)]]) 0 0 = MCell (Fin 0) True"
    using single_flat_cell(1)[of 0 1 0 "[RGBG (Fin 0) (Fin 0) (Fin 0) (Fin 0)]" "[RGBG (Fin 5) (Fin 5) (Fin 5) (Fin 5)]"]
      single_zero_mean(1)[OF v] by (simp add: a)
  have e1: "cell (flat_errs_mask_of 1 [[RGBG (Fin 0) (Fin 0) (Fin 0) (Fin 0)]]
           [[RGBG (Fin 5) (Fin 5) (Fin 5) (Fin 5)]]) 0 0 = MCell (Fin 0) True"
    using single_flat_cell(2)[of 0 1 0 "[RGBG (Fin 0) (Fin 0) (Fin 0) (Fin 0)]" "[RGBG (Fin 5) (Fin 5) (Fin 5) (Fin 5)]"]
      single_zero_mean(2)[OF v] by (simp add: a)
  define M :: "spectrum list" where
    "M = [[RGBG (Fin 100) (Fin 100) (Fin 100) (Fin 100)], [RGBG (Fin 50) (Fin 50) (Fin 50) (Fin 50)]]"
  define Sd :: "spectrum list" where
    "Sd = [[RGBG (Fin 5) (Fin 5) (Fin 5) (Fin 5)], [RGBG (Fin 0) (Fin 0) (Fin 0) (Fin 0)]]"
  have ps: "zip (col M 0 0) (col Sd 0 0) = [(Fin 100, Fin 5), (Fin 50, Fin 0)]"
    by (simp add: M_def Sd_def col_def cell_def channels_def)
  have h: "wide 0 M" "wide 0 Sd" "length M = length Sd"
    by (simp_all add: M_def Sd_def wide_def)
  have w1: "wgt_cell (Fin 100, Fin 5) = MCell (Fin 400) False"
    using wgt_cell_valid[of "(Fin 100, Fin 5)"] by (simp add: valid_pair_def weight_of_def)
  have w2: "wgt_cell (Fin 50, Fin 0) = MCell fill_value True"
    by (simp add: wgt_cell_def weight_cell_def ma_power2_def ma_array_def average_wgt_def
        ma_multiply_def Let_def)
  have "tiny < 1 / 100" by (simp add: tiny_def)
  then have small: "40000 * tiny < (400::real)" by simp
  have "mean_col [(Fin 100, Fin 5), (Fin 50, Fin 0)] = MCell (Fin 100) False"
    using small
    by (simp add: mean_col_def w1 w2 np_multiply_def ma_array_def ma_sum_def ma_true_divide_def
        domain_safe_divide_def Let_def)
  then have "cell (flat_means_mask_of 1 M Sd) 0 0 = MCell (Fin 100) False"
    using flat_means_cell[OF h(1,2) _ h(3), of 0 1] by (simp add: ps)
  then show ?thesis using m1 e1 by (simp add: M_def Sd_def)
qed


section \<open>Two identical copies\<close>





section \<open>Cells without data\<close>

lemma length_flat_means [simp]: "length (flat_means_mask_of W M Sd) = W"
  by (simp add: flat_means_mask_of_def ma_average_def arr2_map2_def Let_def)

lemma length_flat_errs [simp]: "length (flat_errs_mask_of W M Sd) = W"
  by (simp add: flat_errs_mask_of_def arr2_map_def Let_def)

lemma length_arr2_map [simp]: "length (arr2_map f R) = length R"
  by (simp add: arr2_map_def)

lemma cell_rescale:
  "w < length flat \<Longrightarrow> c < 4 \<Longrightarrow> cell (rescale mx flat) w c = data (ma_true_divide (cell flat w c) mx)"
  by (simp add: rescale_def cell_arr2_map)

lemma combine_Inr:
  assumes "combine W M Sd = Inr r"
  obtains mx where "ma_max (concat (map channels (flat_means_mask_of W M Sd))) = Inr mx"
    and "response_normalised r = rescale mx (flat_means_mask_of W M Sd)"
    and "errors_normalised r = rescale mx (flat_errs_mask_of W M Sd)"
  using assms by (auto simp: combine_def Let_def split: sum.splits)

lemma combine_succeeds:
  assumes "0 < W"
  shows "\<exists>r. combine W M Sd = Inr r"
proof -
  have "flat_means_mask_of W M Sd \<noteq> []" using assms by (metis length_flat_means length_0_conv less_numeral_extra(3))
  then have "concat (map channels (flat_means_mask_of W M Sd)) \<noteq> []"
    by (cases "flat_means_mask_of W M Sd") (simp_all add: channels_def)
  then show ?thesis
    by (simp add: combine_def Let_def ma_max_def)
qed

lemma flat_cells_missing:
  assumes "wide w M" and "wide w Sd" and "length M = length Sd" and "w < W" and "c < 4"
    and "\<forall>p \<in> set (zip (col M w c) (col Sd w c)). missing_pair p"
  shows "cell (flat_means_mask_of W M Sd) w c = MCell (Fin 0) True"
    and "cell (flat_errs_mask_of W M Sd) w c = MCell (Fin 0) True"
proof -
  have "cell (flat_means_mask_of W M Sd) w c = mean_col (zip (col M w c) (col Sd w c))"
    using flat_means_cell[OF assms(1,2,5,3,4)] by blast
  then show "cell (flat_means_mask_of W M Sd) w c = MCell (Fin 0) True"
    using mean_col_missing[OF assms(6)] by simp
  have
    "cell (flat_errs_mask_of W M Sd) w c = err_col (zip (col M w c) (col Sd w c))"
    using flat_errs_cell[OF assms(1,2,5,3,4)] by blast
  then show "cell (flat_errs_mask_of W M Sd) w c = MCell (Fin 0) True"
    using err_col_missing[OF assms(6)] by simp
qed

text \<open>
  C8. At a cell where every spectrum is missing, the combined mean and std are masked
  before the mask is removed, and the arrays that the script keeps and saves,
  \<^verbatim>\<open>response_normalised\<close> and \<^verbatim>\<open>errors_normalised\<close>, hold 0 there: the value stored
  under the mask, which \<^verbatim>\<open>.data\<close> exposes.
\<close>

theorem all_missing_cell_holds_zero:
  assumes "wide w M" and "wide w Sd" and "length M = length Sd" and "w < W" and "c < 4"
    and "\<forall>p \<in> set (zip (col M w c) (col Sd w c)). missing_pair p"
    and "combine W M Sd = Inr r"
  shows "mask (cell (flat_means_mask_of W M Sd) w c) \<and> mask (cell (flat_errs_mask_of W M Sd) w c) \<and>
         cell (response_normalised r) w c = Fin 0 \<and> cell (errors_normalised r) w c = Fin 0"
proof -
  from assms(7) obtain mx where
    resp: "response_normalised r = rescale mx (flat_means_mask_of W M Sd)" and
    errs: "errors_normalised r = rescale mx (flat_errs_mask_of W M Sd)"
    by (rule combine_Inr)
  show ?thesis
    using flat_cells_missing[OF assms(1-6)] assms(4,5)
    by (simp add: resp errs cell_rescale ma_true_divide_def)
qed

lemma run_stages:
  assumes "wavelengths \<noteq> []"
    and "align_all wavelengths means (min (length means) (length stds)) = Inr all_means"
    and "align_all wavelengths stds (min (length means) (length stds)) = Inr all_stds"
    and "normalise lapack (all_wavelengths_of wavelengths)
           (calibrate_all (all_wavelengths_of wavelengths) all_means cals)
           (calibrate_all (all_wavelengths_of wavelengths) all_stds cals) = Inr st"
    and "combine (length (all_wavelengths_of wavelengths)) (all_means_normalised st)
           (all_stds_normalised st) = Inr c"
  shows "run lapack wavelengths means stds cals =
           Inr \<lparr>wavelengths_out = all_wavelengths_of wavelengths,
                means_calibrated = calibrate_all (all_wavelengths_of wavelengths) all_means cals,
                stds_calibrated = calibrate_all (all_wavelengths_of wavelengths) all_stds cals,
                normalised = st,
                final = c\<rparr>"
  using assms by (simp add: run_def Let_def)

lemma run_InrE:
  assumes "run lapack wavelengths means stds cals = Inr r"
  obtains all_means all_stds where
    "align_all wavelengths means (min (length means) (length stds)) = Inr all_means"
    "align_all wavelengths stds (min (length means) (length stds)) = Inr all_stds"
    "wavelengths_out r = all_wavelengths_of wavelengths"
    "means_calibrated r = calibrate_all (wavelengths_out r) all_means cals"
    "stds_calibrated r = calibrate_all (wavelengths_out r) all_stds cals"
    "normalise lapack (wavelengths_out r) (means_calibrated r) (stds_calibrated r) = Inr (normalised r)"
    "combine (length (wavelengths_out r)) (all_means_normalised (normalised r))
       (all_stds_normalised (normalised r)) = Inr (final r)"
  using assms by (auto simp: run_def Let_def split: if_splits sum.splits)


theorem all_missing_cell_holds_zero_witness:
  "\<exists>r. run no_lapack gap_wavelengths gap_means gap_stds gap_cals = Inr r \<and>
       cell (means_calibrated r ! 0) 2 0 = NaN \<and>
       cell (response_normalised (final r)) 2 0 = Fin 0 \<and>
       cell (errors_normalised (final r)) 2 0 = Fin 0"
proof -
  define Mc :: "spectrum list" where
    "Mc = [[RGBG (Fin 50) (Fin 40) (Fin 30) (Fin 40), RGBG (Fin 45) (Fin 35) (Fin 25) (Fin 35), nan_row]]"
  define Sc :: "spectrum list" where
    "Sc = [[RGBG (Fin (5/2)) (Fin (5/2)) (Fin (5/2)) (Fin (5/2)),
            RGBG (Fin (5/2)) (Fin (5/2)) (Fin (5/2)) (Fin (5/2)), nan_row]]"
  have grid: "all_wavelengths_of gap_wavelengths = [400, 410, 420]"
    unfolding gap_wavelengths_def by code_simp
  have a1: "align_all gap_wavelengths gap_means (min (length gap_means) (length gap_stds)) = Inr gap_means"
    unfolding gap_wavelengths_def gap_means_def gap_stds_def by code_simp
  have a2: "align_all gap_wavelengths gap_stds (min (length gap_means) (length gap_stds)) = Inr gap_stds"
    unfolding gap_wavelengths_def gap_means_def gap_stds_def by code_simp
  have c1: "calibrate_all [400, 410, 420] gap_means gap_cals = Mc"
    unfolding gap_means_def gap_cals_def Mc_def by code_simp
  have c2: "calibrate_all [400, 410, 420] gap_stds gap_cals = Sc"
    unfolding gap_stds_def gap_cals_def Sc_def by code_simp
  have n: "normalise no_lapack [400, 410, 420] Mc Sc =
             Inr \<lparr>all_means_normalised = Mc, all_stds_normalised = Sc, printed = []\<rparr>"
    unfolding Mc_def Sc_def by code_simp
  define st where "st = \<lparr>all_means_normalised = Mc, all_stds_normalised = Sc, printed = []\<rparr>"
  define W where "W = length (all_wavelengths_of gap_wavelengths)"
  have W: "2 < W" "0 < W" by (simp_all add: W_def grid)
  have n': "normalise no_lapack (all_wavelengths_of gap_wavelengths)
              (calibrate_all (all_wavelengths_of gap_wavelengths) gap_means gap_cals)
              (calibrate_all (all_wavelengths_of gap_wavelengths) gap_stds gap_cals) = Inr st"
    unfolding grid c1 c2 st_def by (rule n)
  obtain c where c: "combine W (all_means_normalised st) (all_stds_normalised st) = Inr c"
    using combine_succeeds[OF W(2)] by blast
  have ne: "gap_wavelengths \<noteq> []" by (simp add: gap_wavelengths_def)
  have r: "run no_lapack gap_wavelengths gap_means gap_stds gap_cals =
             Inr \<lparr>wavelengths_out = all_wavelengths_of gap_wavelengths,
                  means_calibrated = Mc, stds_calibrated = Sc, normalised = st, final = c\<rparr>"
    using run_stages[OF ne a1 a2 n' c[unfolded W_def]] by (simp add: grid c1 c2)
  have h: "wide 2 Mc" "wide 2 Sc" "length Mc = length Sc"
    by (simp_all add: Mc_def Sc_def wide_def)
  have m: "\<forall>p \<in> set (zip (col Mc 2 0) (col Sc 2 0)). missing_pair p"
    by (simp add: Mc_def Sc_def col_def cell_def channels_def nan_row_def missing_pair_def)
  have c': "combine W Mc Sc = Inr c" using c by (simp add: st_def)
  have "cell (response_normalised c) 2 0 = Fin 0 \<and> cell (errors_normalised c) 2 0 = Fin 0"
    using all_missing_cell_holds_zero[OF h W(1) _ m c'] by simp
  moreover have "cell (Mc ! 0) 2 0 = NaN"
    by (simp add: Mc_def cell_def channels_def nan_row_def)
  ultimately show ?thesis
    by (simp add: r)
qed

section \<open>The normalise order\<close>

lemma length_argsort [simp]: "length (argsort xs) = length xs"
  by (simp add: argsort_def)

lemma set_argsort [simp]: "set (argsort xs) = {0..<length xs}"
proof -
  have "map snd (zip xs [0..<length xs]) = [0..<length xs]"
    by (simp add: map_snd_zip)
  then have "snd ` set (zip xs [0..<length xs]) = set [0..<length xs]"
    by (metis set_map)
  then show ?thesis by (simp add: argsort_def)
qed

lemma distinct_argsort [simp]: "distinct (argsort xs)"
  by (rule card_distinct) simp

lemma argsort_keys: "map (\<lambda>j. xs ! j) (argsort xs) = map fst (sort_key fst (zip xs [0..<length xs]))"
proof -
  have "\<forall>p \<in> set (sort_key fst (zip xs [0..<length xs])). xs ! snd p = fst p"
    by (auto simp: set_zip)
  then show ?thesis by (simp add: argsort_def)
qed

lemma sorted_argsort: "sorted (map (\<lambda>j. xs ! j) (argsort xs))"
  by (simp add: argsort_keys)

lemma argsort_last_max:
  assumes "j < length xs"
  shows "xs ! j \<le> xs ! last (argsort xs)"
proof -
  let ?s = "argsort xs"
  have ne: "?s \<noteq> []" using assms by (metis length_argsort length_0_conv not_less0)
  from assms have "j \<in> set ?s" by simp
  then obtain k where k: "k < length ?s" "?s ! k = j" by (metis in_set_conv_nth)
  have "map (\<lambda>j. xs ! j) ?s ! k \<le> map (\<lambda>j. xs ! j) ?s ! (length ?s - 1)"
    using sorted_argsort[of xs] k by (intro sorted_nth_mono) simp_all
  then show ?thesis using k ne by (simp add: last_conv_nth)
qed

text \<open>
  C3. Two spectra with the same cells: the first is the baseline, and the normalise order
  consists of the baseline alone, so that the other spectrum is never normalised.
\<close>

theorem normalise_order_of_twins:
  "baseline_of [S, S] = Inr 0 \<and> normalise_order_of (all_overlaps_of [S, S]) 0 = [0]"
  by (simp add: baseline_of_def all_overlaps_of_def diag_def np_argmax_def first_index_def
      normalise_order_of_def argsort_def)

section \<open>The baseline in the loop\<close>

lemma twin_overlaps: "all_overlaps_of twin_means = [[12, 12], [12, 12]]"
  unfolding twin_means_def by code_simp

lemma twin_baseline: "baseline_of twin_means = Inr 0"
  unfolding baseline_of_def twin_overlaps by code_simp

lemma twin_order: "normalise_order_of [[12, 12], [12, 12]] 0 = [0]"
  by code_simp

lemma twin_ratios:
  "arr2_map2 fl_div (twin_means ! 0) (twin_means ! 0) = replicate 3 (RGBG (Fin 1) (Fin 1) (Fin 1) (Fin 1))"
  unfolding twin_means_def by code_simp

lemma fit_of_ones:
  "np_polyfit lapack [400, 410, 420] (replicate 3 (RGBG (Fin 1) (Fin 1) (Fin 1) (Fin 1)))
   = Inr (RGBG (Fin 0, Fin 0, Fin 1) (Fin 0, Fin 0, Fin 1) (Fin 0, Fin 0, Fin 1) (Fin 0, Fin 0, Fin 1))"
  by code_simp

lemma fit_norms_of_ones:
  "fit_norms_of (RGBG (Fin 0, Fin 0, Fin 1) (Fin 0, Fin 0, Fin 1) (Fin 0, Fin 0, Fin 1) (Fin 0, Fin 0, Fin 1))
     [400, 410, 420] = replicate 3 (RGBG (Fin 1) (Fin 1) (Fin 1) (Fin 1))"
  by code_simp

lemma twin_divide:
  "arr2_map2 fl_div (twin_means ! 0) (replicate 3 (RGBG (Fin 1) (Fin 1) (Fin 1) (Fin 1))) = twin_means ! 0"
  "arr2_map2 fl_div (twin_stds ! 0) (replicate 3 (RGBG (Fin 1) (Fin 1) (Fin 1) (Fin 1))) = twin_stds ! 0"
  unfolding twin_means_def twin_stds_def by code_simp+

lemma twin_step:
  "normalise_step lapack [400, 410, 420] [[12, 12], [12, 12]] 0 twin_means twin_stds
     (initial_state twin_means twin_stds) 0
   = Inr \<lparr>all_means_normalised = twin_means, all_stds_normalised = twin_stds, printed = [(0, 0)]\<rparr>"
proof -
  let ?ones = "replicate 3 (RGBG (Fin 1) (Fin 1) (Fin 1) (Fin 1))"
  have sel: "select [400, 410, 420 :: real] (replicate 3 True) = [400, 410, 420]"
    "select ?ones (replicate 3 True) = ?ones"
    by code_simp+
  have upd: "twin_means[0 := twin_means ! 0] = twin_means" "twin_stds[0 := twin_stds ! 0] = twin_stds"
    by simp_all
  show ?thesis
    unfolding normalise_step_def comparison_of_def initial_state_def
    by (simp add: twin_ratios sel fit_of_ones fit_norms_of_ones twin_divide upd Let_def)
qed

lemma twin_normalise:
  "normalise lapack [400, 410, 420] twin_means twin_stds
   = Inr \<lparr>all_means_normalised = twin_means, all_stds_normalised = twin_stds, printed = [(0, 0)]\<rparr>"
  by (simp add: normalise_def twin_overlaps twin_baseline twin_order twin_step Let_def)

text \<open>
  C5. On two configurations with the same data the loop runs its body for the baseline: it
  prints \<^verbatim>\<open>Normalising spectrum 0 to spectrum 0\<close> and assigns the entry 0 of
  \<^verbatim>\<open>all_means_normalised\<close> and \<^verbatim>\<open>all_stds_normalised\<close>, the entry of the baseline.
\<close>

theorem baseline_normalised_by_itself:
  "\<exists>r. run no_lapack twin_wavelengths twin_means twin_stds twin_cals = Inr r \<and>
       baseline_of (means_calibrated r) = Inr 0 \<and>
       printed (normalised r) = [(0, 0)]"
proof -
  define st where "st = \<lparr>all_means_normalised = twin_means, all_stds_normalised = twin_stds,
                          printed = [(0::nat, 0::nat)]\<rparr>"
  have grid: "all_wavelengths_of twin_wavelengths = [400, 410, 420]"
    unfolding twin_wavelengths_def by code_simp
  have a1: "align_all twin_wavelengths twin_means (min (length twin_means) (length twin_stds)) = Inr twin_means"
    unfolding twin_wavelengths_def twin_means_def twin_stds_def by code_simp
  have a2: "align_all twin_wavelengths twin_stds (min (length twin_means) (length twin_stds)) = Inr twin_stds"
    unfolding twin_wavelengths_def twin_means_def twin_stds_def by code_simp
  have c1: "calibrate_all [400, 410, 420] twin_means twin_cals = twin_means"
    unfolding twin_means_def twin_cals_def by code_simp
  have c2: "calibrate_all [400, 410, 420] twin_stds twin_cals = twin_stds"
    unfolding twin_stds_def twin_cals_def by code_simp
  have n': "normalise no_lapack (all_wavelengths_of twin_wavelengths)
              (calibrate_all (all_wavelengths_of twin_wavelengths) twin_means twin_cals)
              (calibrate_all (all_wavelengths_of twin_wavelengths) twin_stds twin_cals) = Inr st"
    unfolding grid c1 c2 st_def by (rule twin_normalise)
  obtain c where c: "combine (length (all_wavelengths_of twin_wavelengths)) (all_means_normalised st)
      (all_stds_normalised st) = Inr c"
    using combine_succeeds[of "length (all_wavelengths_of twin_wavelengths)"] by (auto simp: grid)
  have ne: "twin_wavelengths \<noteq> []" by (simp add: twin_wavelengths_def)
  show ?thesis
    using run_stages[OF ne a1 a2 n' c] by (simp add: grid c1 c2 st_def twin_baseline)
qed

section \<open>A baseline that overlaps no other spectrum\<close>

lemma iso_grid: "all_wavelengths_of iso_wavelengths = iso_grid"
  unfolding iso_wavelengths_def iso_grid_def by code_simp

lemma iso_align:
  "align_all iso_wavelengths iso_means (min (length iso_means) (length iso_stds)) = Inr iso_means_calibrated"
  "align_all iso_wavelengths iso_stds (min (length iso_means) (length iso_stds)) = Inr iso_stds_calibrated"
  unfolding iso_wavelengths_def iso_means_def iso_stds_def iso_means_calibrated_def iso_stds_calibrated_def
  by code_simp+

lemma iso_calibrate:
  "calibrate_all iso_grid iso_means_calibrated iso_cals = iso_means_calibrated"
  "calibrate_all iso_grid iso_stds_calibrated iso_cals = iso_stds_calibrated"
  unfolding iso_grid_def iso_cals_def iso_means_calibrated_def iso_stds_calibrated_def
  by code_simp+

lemma iso_overlaps: "all_overlaps_of iso_means_calibrated = [[16, 0, 0], [0, 12, 12], [0, 12, 12]]"
  unfolding iso_means_calibrated_def by code_simp

lemma iso_baseline: "baseline_of iso_means_calibrated = Inr 0"
  unfolding baseline_of_def iso_overlaps by code_simp

lemma iso_order: "normalise_order_of [[16, 0, 0], [0, 12, 12], [0, 12, 12]] 0 = [2, 1]"
  by code_simp

lemma iso_comparison:
  "comparison_of [[16, 0, 0], [0, 12, 12], [0, 12, 12]] 0 2 = Inr 1"
  "comparison_of [[16, 0, 0], [0, 12, 12], [0, 12, 12]] 0 1 = Inr 1"
  by code_simp+


lemma iso_normalise:
  "\<exists>st. normalise no_lapack iso_grid iso_means_calibrated iso_stds_calibrated = Inr st \<and>
        printed st = [(2, 1), (1, 1)]"
proof -
  let ?ov = "[[16, 0, 0], [0, 12, 12], [0, 12, 12 :: nat]]"
  define Mc Sc where "Mc = iso_means_calibrated" and "Sc = iso_stds_calibrated"
  define twos ones :: "fl rgbg" where
    "twos = RGBG (Fin 2) (Fin 2) (Fin 2) (Fin 2)" and "ones = RGBG (Fin 1) (Fin 1) (Fin 1) (Fin 1)"
  define ratios1 ratios2 where
    "ratios1 = replicate 4 nan_row @ replicate 3 twos" and
    "ratios2 = replicate 4 nan_row @ replicate 3 ones"
  define ind where "ind = replicate 4 False @ replicate 3 True"
  define fits1 fits2 :: "poly2 rgbg" where
    "fits1 = RGBG (Fin 0, Fin 0, Fin 2) (Fin 0, Fin 0, Fin 2) (Fin 0, Fin 0, Fin 2) (Fin 0, Fin 0, Fin 2)" and
    "fits2 = RGBG (Fin 0, Fin 0, Fin 1) (Fin 0, Fin 0, Fin 1) (Fin 0, Fin 0, Fin 1) (Fin 0, Fin 0, Fin 1)"
  define norms1 norms2 where "norms1 = replicate 7 twos" and "norms2 = replicate 7 ones"
  define halves where
    "halves = replicate 4 nan_row @ replicate 3 (RGBG (Fin (5/2)) (Fin (5/2)) (Fin (5/2)) (Fin (5/2)))"
  define st1 where
    "st1 = \<lparr>all_means_normalised = Mc[2 := Mc ! 1], all_stds_normalised = Sc[2 := halves],
            printed = [(2::nat, 1::nat)]\<rparr>"
  note defs = Mc_def Sc_def twos_def ones_def ratios1_def ratios2_def ind_def fits1_def fits2_def
    norms1_def norms2_def halves_def iso_means_calibrated_def iso_stds_calibrated_def iso_grid_def
  have r1: "arr2_map2 fl_div (Mc ! 2) (Mc ! 1) = ratios1" unfolding defs by code_simp
  have i1: "map (\<lambda>r. \<not> isnan (chR r)) ratios1 = ind" unfolding defs by code_simp
  have x: "select iso_grid ind = [500, 510, 520]" unfolding defs by code_simp
  have y1: "select ratios1 ind = replicate 3 twos" unfolding defs by code_simp
  have f1: "np_polyfit no_lapack [500, 510, 520] (replicate 3 twos) = Inr fits1"
    unfolding defs by code_simp
  have n1: "fit_norms_of fits1 iso_grid = norms1" unfolding defs by code_simp
  have d1: "arr2_map2 fl_div (Mc ! 2) norms1 = Mc ! 1" "arr2_map2 fl_div (Sc ! 2) norms1 = halves"
    unfolding defs by code_simp+
  have step1: "normalise_step no_lapack iso_grid ?ov 0 Mc Sc (initial_state Mc Sc) 2 = Inr st1"
    unfolding normalise_step_def iso_comparison initial_state_def st1_def
    by (simp add: r1 i1 x y1 f1 n1 d1 Let_def del: One_nat_def)
  have m1: "all_means_normalised st1 ! 1 = Mc ! 1" unfolding st1_def Mc_def iso_means_calibrated_def
    by simp
  have r2: "arr2_map2 fl_div (Mc ! 1) (Mc ! 1) = ratios2" unfolding defs by code_simp
  have i2: "map (\<lambda>r. \<not> isnan (chR r)) ratios2 = ind" unfolding defs by code_simp
  have y2: "select ratios2 ind = replicate 3 ones" unfolding defs by code_simp
  have f2: "np_polyfit no_lapack [500, 510, 520] (replicate 3 ones) = Inr fits2"
    unfolding defs by code_simp
  have n2: "fit_norms_of fits2 iso_grid = norms2" unfolding defs by code_simp
  define st2 where
    "st2 = \<lparr>all_means_normalised = (all_means_normalised st1)[1 := arr2_map2 fl_div (Mc ! 1) norms2],
            all_stds_normalised = (all_stds_normalised st1)[1 := arr2_map2 fl_div (Sc ! 1) norms2],
            printed = printed st1 @ [(1, 1)]\<rparr>"
  have step2: "normalise_step no_lapack iso_grid ?ov 0 Mc Sc st1 1 = Inr st2"
    unfolding normalise_step_def iso_comparison st2_def
    by (simp add: m1 r2 i2 x y2 f2 n2 Let_def del: One_nat_def)
  have st2: "printed st2 = [(2, 1), (1, 1)]"
    by (simp add: st2_def st1_def)
  have "normalise no_lapack iso_grid Mc Sc = Inr st2"
    unfolding normalise_def
    using iso_overlaps iso_baseline
    by (simp add: Mc_def[symmetric] iso_order step1 step2 Let_def del: One_nat_def)
  then show ?thesis using st2 by (auto simp: Mc_def Sc_def)
qed


lemma iso_run:
  "\<exists>st c. run no_lapack iso_wavelengths iso_means iso_stds iso_cals =
            Inr \<lparr>wavelengths_out = iso_grid, means_calibrated = iso_means_calibrated,
                 stds_calibrated = iso_stds_calibrated, normalised = st, final = c\<rparr> \<and>
          printed st = [(2, 1), (1, 1)]"
proof -
  obtain st where st: "normalise no_lapack iso_grid iso_means_calibrated iso_stds_calibrated = Inr st"
    "printed st = [(2, 1), (1, 1)]"
    using iso_normalise by blast
  have n': "normalise no_lapack (all_wavelengths_of iso_wavelengths)
              (calibrate_all (all_wavelengths_of iso_wavelengths) iso_means_calibrated iso_cals)
              (calibrate_all (all_wavelengths_of iso_wavelengths) iso_stds_calibrated iso_cals) = Inr st"
    unfolding iso_grid iso_calibrate by (rule st(1))
  obtain c where c: "combine (length (all_wavelengths_of iso_wavelengths)) (all_means_normalised st)
      (all_stds_normalised st) = Inr c"
    using combine_succeeds[of "length (all_wavelengths_of iso_wavelengths)"]
    by (auto simp: iso_grid iso_grid_def)
  have ne: "iso_wavelengths \<noteq> []" by (simp add: iso_wavelengths_def)
  show ?thesis
    using run_stages[OF ne iso_align n' c] st(2) by (simp add: iso_grid iso_calibrate)
qed

lemma iso_no_overlap:
  "overlap (iso_means_calibrated ! 0) (iso_means_calibrated ! 1) = 0"
  "overlap (iso_means_calibrated ! 0) (iso_means_calibrated ! 2) = 0"
  unfolding iso_means_calibrated_def by code_simp+

text \<open>
  C4, as stated, fails: the first configuration has zero overlap score with each of the
  other two, and the run ends without any error. The first configuration is the baseline,
  and the loop normalises the third spectrum to the second and the second to itself.
\<close>

theorem isolated_baseline_is_merged:
  "\<not> isl (run no_lapack iso_wavelengths iso_means iso_stds iso_cals) \<and>
   baseline_of (means_calibrated (projr (run no_lapack iso_wavelengths iso_means iso_stds iso_cals))) = Inr 0 \<and>
   overlap (means_calibrated (projr (run no_lapack iso_wavelengths iso_means iso_stds iso_cals)) ! 0)
           (means_calibrated (projr (run no_lapack iso_wavelengths iso_means iso_stds iso_cals)) ! 1) = 0 \<and>
   overlap (means_calibrated (projr (run no_lapack iso_wavelengths iso_means iso_stds iso_cals)) ! 0)
           (means_calibrated (projr (run no_lapack iso_wavelengths iso_means iso_stds iso_cals)) ! 2) = 0 \<and>
   printed (normalised (projr (run no_lapack iso_wavelengths iso_means iso_stds iso_cals))) = [(2, 1), (1, 1)]"
proof -
  obtain st c where "run no_lapack iso_wavelengths iso_means iso_stds iso_cals =
            Inr \<lparr>wavelengths_out = iso_grid, means_calibrated = iso_means_calibrated,
                 stds_calibrated = iso_stds_calibrated, normalised = st, final = c\<rparr>"
      and "printed st = [(2, 1), (1, 1)]"
    using iso_run by blast
  then show ?thesis
    by (simp add: iso_baseline iso_no_overlap del: One_nat_def)
qed

section \<open>A spectrum that overlaps no other\<close>

lemma fl_div_nan_right [simp]: "fl_div a NaN = NaN"
  by (cases a) simp_all

lemma signed_inf_not_finite [simp]: "\<not> isfinite (signed_inf s)"
  by (cases s) simp_all

lemma fl_div_not_finite:
  "\<not> isfinite a \<Longrightarrow> \<not> isfinite (fl_div a f)"
  by (cases a; cases f) (auto split: if_splits)

lemma fl_div_nan_left: "isnan a \<Longrightarrow> isnan (fl_div a f)"
  by (cases a) simp_all

lemma fl_div_both_not_finite: "\<not> isfinite a \<Longrightarrow> \<not> isfinite b \<Longrightarrow> fl_div a b = NaN"
  by (cases a; cases b) simp_all

lemma chR_rgbg2 [simp]: "chR (rgbg2 f a b) = f (chR a) (chR b)"
  by (simp add: rgbg2_def)

lemma in_set_arr2_map2:
  assumes "r \<in> set (arr2_map2 f A B)"
  obtains k where "k < length A" "k < length B" "r = rgbg2 f (A ! k) (B ! k)"
  using assms by (auto simp: arr2_map2_def in_set_conv_nth)

lemma count_not_nan_zero:
  "count_not_nan X = 0 \<longleftrightarrow> (\<forall>r \<in> set X. \<forall>x \<in> set (channels r). isnan x)"
  by (auto simp: count_not_nan_def filter_empty_conv)

lemma overlap_zero_chR:
  assumes "overlap A B = 0" "k < length A" "k < length B"
  shows "isnan (fl_add (chR (A ! k)) (chR (B ! k)))"
proof -
  have "rgbg2 fl_add (A ! k) (B ! k) \<in> set (arr2_map2 fl_add A B)"
    using assms(2,3) by (force simp: arr2_map2_def in_set_conv_nth)
  moreover have "chR r \<in> set (channels r)" for r :: "fl rgbg" by (simp add: channels_def)
  ultimately have "isnan (chR (rgbg2 fl_add (A ! k) (B ! k)))"
    using assms(1) unfolding overlap_def count_not_nan_zero by blast
  then show ?thesis by simp
qed

lemma shadows_refl: "shadows A A"
  by (simp add: shadows_def)

lemma shadows_divide: "shadows A (arr2_map2 fl_div A F)"
  by (auto simp: shadows_def arr2_map2_def fl_div_nan_left fl_div_not_finite)

text \<open>No cell of the ratio is valid in channel 0 when the overlap score is zero.\<close>

lemma ratios_nan:
  assumes "overlap A B = 0" "shadows B B'"
  shows "\<forall>r \<in> set (arr2_map2 fl_div A B'). isnan (chR r)"
proof
  fix r assume "r \<in> set (arr2_map2 fl_div A B')"
  then obtain k where k: "k < length A" "k < length B'" "r = rgbg2 fl_div (A ! k) (B' ! k)"
    by (rule in_set_arr2_map2)
  have kB: "k < length B" using k(2) assms(2) by (simp add: shadows_def)
  have sh: "isnan (chR (B ! k)) \<longrightarrow> isnan (chR (B' ! k))"
      "\<not> isfinite (chR (B ! k)) \<longrightarrow> \<not> isfinite (chR (B' ! k))"
    using assms(2) k(2) by (simp_all add: shadows_def)
  from overlap_zero_chR[OF assms(1) k(1) kB]
  consider "isnan (chR (A ! k))" | "isnan (chR (B ! k))" | "opposite_inf (chR (A ! k)) (chR (B ! k))"
    by (auto simp: isnan_fl_add)
  then have "fl_div (chR (A ! k)) (chR (B' ! k)) = NaN"
  proof cases
    case 1
    then show ?thesis by (cases "chR (A ! k)") simp_all
  next
    case 2
    then have "isnan (chR (B' ! k))" using sh by simp
    then show ?thesis by (cases "chR (B' ! k)") simp_all
  next
    case 3
    then have "\<not> isfinite (chR (A ! k))" "\<not> isfinite (chR (B ! k))"
      by (auto simp: opposite_inf_def)
    then show ?thesis using sh fl_div_both_not_finite by simp
  qed
  then show "isnan (chR r)" by (simp add: k(3))
qed

lemma ratios_nan_empty:
  assumes "overlap A A = 0"
  shows "\<forall>r \<in> set (arr2_map2 fl_div A X). isnan (chR r)"
proof
  fix r assume "r \<in> set (arr2_map2 fl_div A X)"
  then obtain k where k: "k < length A" "k < length X" "r = rgbg2 fl_div (A ! k) (X ! k)"
    by (rule in_set_arr2_map2)
  have "isnan (fl_add (chR (A ! k)) (chR (A ! k)))"
    using overlap_zero_chR[OF assms k(1) k(1)] .
  then have "isnan (chR (A ! k))" by (simp add: self_add_nan)
  then show "isnan (chR r)" by (simp add: k(3) fl_div_nan_left)
qed

lemma select_none: "\<forall>b \<in> set ind. \<not> b \<Longrightarrow> select arr ind = []"
  by (auto simp: select_def filter_empty_conv dest: set_zip_rightD)

lemma step_without_points:
  assumes "comparison_of ov b i = Inr c"
    and "\<forall>r \<in> set (arr2_map2 fl_div (M ! i) (all_means_normalised st ! c)). isnan (chR r)"
  shows "normalise_step lapack G ov b M Sd st i = Inl TypeError"
proof -
  have "select G (map (\<lambda>r. \<not> isnan (chR r)) (arr2_map2 fl_div (M ! i) (all_means_normalised st ! c))) = []"
    using assms(2) by (intro select_none) simp
  then show ?thesis
    by (simp add: normalise_step_def assms(1) Let_def np_polyfit_def)
qed

lemma step_keeps_invariant:
  assumes "loop_invariant M st" "normalise_step lapack G ov b M Sd st j = Inr st'"
  shows "loop_invariant M st'"
proof -
  from assms(2) obtain F where
    st': "all_means_normalised st' = (all_means_normalised st)[j := arr2_map2 fl_div (M ! j) F]"
    by (auto simp: normalise_step_def Let_def split: sum.splits)
  have "shadows (M ! k) ((all_means_normalised st)[j := arr2_map2 fl_div (M ! j) F] ! k)"
    if "k < length M" for k
  proof (cases "k = j")
    case True
    then show ?thesis using that assms(1) by (simp add: loop_invariant_def shadows_divide)
  next
    case False
    then show ?thesis using that assms(1) by (simp add: loop_invariant_def)
  qed
  then show ?thesis
    unfolding loop_invariant_def st' using assms(1) by (simp add: loop_invariant_def)
qed

lemma loop_stops:
  assumes "loop_invariant M st" "i \<in> set order"
    and "\<And>st. loop_invariant M st \<Longrightarrow> \<exists>e. normalise_step lapack G ov b M Sd st i = Inl e"
  shows "\<exists>e. normalise_loop (normalise_step lapack G ov b M Sd) st order = Inl e"
  using assms(1,2)
proof (induction order arbitrary: st)
  case Nil
  then show ?case by simp
next
  case (Cons j order)
  show ?case
  proof (cases "normalise_step lapack G ov b M Sd st j")
    case (Inl e)
    then show ?thesis by simp
  next
    case (Inr st')
    then have inv: "loop_invariant M st'" using Cons.prems(1) step_keeps_invariant by blast
    have "j \<noteq> i" using Inr assms(3)[OF Cons.prems(1)] by auto
    then have "i \<in> set order" using Cons.prems(2) by simp
    then show ?thesis using Cons.IH[OF inv] Inr by simp
  qed
qed


lemma fl_add_commute: "fl_add a b = fl_add b a"
  by (cases a; cases b) simp_all

lemma overlap_commute: "overlap A B = overlap B A"
proof -
  have "arr2_map2 fl_add A B = arr2_map2 fl_add B A"
    unfolding arr2_map2_def
    by (induction A B rule: list_induct2') (simp_all add: rgbg2_def fl_add_commute)
  then show ?thesis by (simp add: overlap_def)
qed

lemma length_all_overlaps [simp]: "length (all_overlaps_of M) = length M"
  by (simp add: all_overlaps_of_def)

lemma all_overlaps_row [simp]:
  "r < length M \<Longrightarrow> length (all_overlaps_of M ! r) = length M"
  by (simp add: all_overlaps_of_def)

lemma all_overlaps_nth:
  "r < length M \<Longrightarrow> c < length M \<Longrightarrow> all_overlaps_of M ! r ! c = overlap (M ! c) (M ! r)"
  by (simp add: all_overlaps_of_def)

lemma first_index_member:
  "v \<in> set xs \<Longrightarrow> first_index xs v < length xs \<and> xs ! first_index xs v = v"
  by (induction xs) (auto simp: first_index_def)

lemma np_argmax_Inr:
  assumes "np_argmax xs = Inr b"
  shows "b < length xs \<and> (\<forall>j < length xs. xs ! j \<le> xs ! b)"
proof -
  from assms have ne: "xs \<noteq> []" and b: "b = first_index xs (Max (set xs))"
    by (auto simp: np_argmax_def split: if_splits)
  have "Max (set xs) \<in> set xs" using ne by simp
  then have "b < length xs \<and> xs ! b = Max (set xs)"
    unfolding b by (rule first_index_member)
  then show ?thesis by simp
qed

lemma baseline_of_Inr:
  assumes "baseline_of M = Inr b"
  shows "b < length M" and "\<forall>j < length M. overlap (M ! j) (M ! j) \<le> overlap (M ! b) (M ! b)"
proof -
  have ld: "length (diag (all_overlaps_of M)) = length M" by (simp add: diag_def)
  from np_argmax_Inr[OF assms[unfolded baseline_of_def]]
  have b: "b < length M" and mx: "\<forall>j < length M. diag (all_overlaps_of M) ! j \<le> diag (all_overlaps_of M) ! b"
    unfolding ld by blast+
  show "b < length M" by (rule b)
  have d: "diag (all_overlaps_of M) ! j = overlap (M ! j) (M ! j)" if "j < length M" for j
    using that by (simp add: diag_def all_overlaps_nth)
  show "\<forall>j < length M. overlap (M ! j) (M ! j) \<le> overlap (M ! b) (M ! b)"
    using mx b d by metis
qed

text \<open>A spectrum without data stops the loop, whatever it is compared with.\<close>

lemma empty_spectrum_stops:
  assumes "overlap (M ! j) (M ! j) = 0"
  shows "\<exists>e. normalise_step lapack G ov b M Sd st j = Inl e"
proof (cases "comparison_of ov b j")
  case (Inl e)
  then show ?thesis by (simp add: normalise_step_def)
next
  case (Inr c)
  then show ?thesis
    using step_without_points[OF Inr ratios_nan_empty[OF assms]] by blast
qed

text \<open>A spectrum other than the baseline that overlaps no other spectrum stops the loop.\<close>

lemma isolated_spectrum_stops:
  assumes b: "b < length M" and i: "i < length M" "i \<noteq> b"
    and iso: "\<forall>j < length M. j \<noteq> i \<longrightarrow> overlap (M ! i) (M ! j) = 0"
    and inv: "loop_invariant M st"
  shows "\<exists>e. normalise_step lapack G (all_overlaps_of M) b M Sd st i = Inl e"
proof -
  let ?ov = "all_overlaps_of M"
  let ?s = "argsort (?ov ! i)"
  let ?n = "length M"
  have n2: "2 \<le> ?n" using b i by simp
  have len: "length ?s = ?n" using i(1) by simp
  have "?ov ! i ! b = 0"
    using iso b i by (simp add: all_overlaps_nth overlap_commute)
  then have cmp: "comparison_of ?ov b i = Inr (?s ! (?n - 2))"
    using n2 len by (simp add: comparison_of_def from_end_def)
  let ?c = "?s ! (?n - 2)"
  have c_in: "?c \<in> set ?s" using n2 len by (intro nth_mem) simp
  then have c: "?c < ?n" using i(1) by simp
  show ?thesis
  proof (cases "?c = i")
    case False
    have "overlap (M ! i) (M ! ?c) = 0" using iso c False by simp
    moreover have "shadows (M ! ?c) (all_means_normalised st ! ?c)"
      using inv c by (simp add: loop_invariant_def)
    ultimately show ?thesis
      using step_without_points[OF cmp ratios_nan] by blast
  next
    case True
    let ?l = "?s ! (?n - 1)"
    have "?l \<in> set ?s" using n2 len by (intro nth_mem) simp
    then have l: "?l < ?n" using i(1) by simp
    have "?l \<noteq> ?c"
      using distinct_argsort[of "?ov ! i"] n2 len
      by (simp add: distinct_conv_nth)
    then have "overlap (M ! i) (M ! ?l) = 0" using iso l True by simp
    then have key_l: "?ov ! i ! ?l = 0"
      using i(1) l by (simp add: all_overlaps_nth overlap_commute)
    have "map (\<lambda>j. (?ov ! i) ! j) ?s ! (?n - 2) \<le> map (\<lambda>j. (?ov ! i) ! j) ?s ! (?n - 1)"
      using sorted_argsort[of "?ov ! i"] n2 len by (intro sorted_nth_mono) simp_all
    then have "?ov ! i ! ?c \<le> ?ov ! i ! ?l" using n2 len by simp
    then have "?ov ! i ! i = 0" using key_l True by simp
    then have "overlap (M ! i) (M ! i) = 0" using i(1) by (simp add: all_overlaps_nth)
    then show ?thesis by (rule empty_spectrum_stops)
  qed
qed


lemma initial_invariant: "loop_invariant M (initial_state M Sd)"
  by (simp add: loop_invariant_def initial_state_def shadows_refl)

text \<open>
  C4, amended. When a spectrum other than the baseline has zero overlap score with every
  other spectrum, the run of the Normalizer ends with an error: the fit of some iteration
  of the loop, at the latest that of the isolated spectrum, has no points, and
  \<^verbatim>\<open>np.polyfit\<close> raises. No combined curve is produced.
\<close>

theorem isolated_spectrum_stops_the_run:
  assumes "baseline_of M = Inr b" and "i < length M" and "i \<noteq> b"
    and "\<forall>j < length M. j \<noteq> i \<longrightarrow> overlap (M ! i) (M ! j) = 0"
  shows "\<exists>e. normalise lapack G M Sd = Inl e"
proof -
  let ?ov = "all_overlaps_of M"
  let ?s = "argsort (?ov ! b)"
  let ?step = "normalise_step lapack G ?ov b M Sd"
  have b: "b < length M" using assms(1) by (rule baseline_of_Inr(1))
  have len: "length ?s = length M" using b by simp
  have ne: "?s \<noteq> []" using len b by (metis length_0_conv not_less0)
  have n2: "2 \<le> length M" using b assms(2,3) by simp
  have split: "?s = butlast ?s @ [last ?s]" using ne by simp
  have "\<exists>j \<in> set (butlast ?s). \<forall>st. loop_invariant M st \<longrightarrow> (\<exists>e. ?step st j = Inl e)"
  proof (cases "i = last ?s")
    case False
    have "i \<in> set ?s" using assms(2) b by simp
    then have "i \<in> set (butlast ?s)" using False split
      by (metis Un_iff empty_iff insert_iff list.simps(15) set_append empty_set)
    then show ?thesis
      using isolated_spectrum_stops[OF b assms(2,3,4)] by blast
  next
    case True
    have "?ov ! b ! i = 0"
      using assms(2,3,4) b by (simp add: all_overlaps_nth)
    moreover have "?ov ! b ! b \<le> ?ov ! b ! last ?s"
      using argsort_last_max[of b "?ov ! b"] b by simp
    ultimately have "overlap (M ! b) (M ! b) = 0"
      using True b by (simp add: all_overlaps_nth)
    then have empty: "overlap (M ! j) (M ! j) = 0" if "j < length M" for j
      using baseline_of_Inr(2)[OF assms(1)] that by auto
    have "butlast ?s \<noteq> []" using len n2 by (cases ?s rule: rev_cases) auto
    then obtain j where j: "j \<in> set (butlast ?s)" by (cases "butlast ?s") auto
    then have "j \<in> set ?s" by (rule in_set_butlastD)
    then have "j < length M" using b by simp
    then show ?thesis
      using empty_spectrum_stops[OF empty] j by blast
  qed
  then obtain j where j: "j \<in> set (rev (butlast ?s))"
    and dead: "\<And>st. loop_invariant M st \<Longrightarrow> \<exists>e. ?step st j = Inl e"
    by auto
  have "\<exists>e. normalise_loop ?step (initial_state M Sd) (rev (butlast ?s)) = Inl e"
    using initial_invariant j dead by (rule loop_stops)
  then show ?thesis
    by (simp add: normalise_def assms(1) normalise_order_of_def Let_def)
qed


theorem isolated_spectrum_stops_the_run_witness:
  "isl (normalise no_lapack [400, 410, 420]
          [[RGBG (Fin 100) (Fin 80) (Fin 60) (Fin 80), RGBG (Fin 90) (Fin 70) (Fin 50) (Fin 70), nan_row],
           [nan_row, nan_row, RGBG (Fin 10) (Fin 20) (Fin 30) (Fin 20)]]
          [[RGBG (Fin 5) (Fin 5) (Fin 5) (Fin 5), RGBG (Fin 5) (Fin 5) (Fin 5) (Fin 5), nan_row],
           [nan_row, nan_row, RGBG (Fin 5) (Fin 5) (Fin 5) (Fin 5)]])"
proof -
  define M :: "spectrum list" where
    "M = [[RGBG (Fin 100) (Fin 80) (Fin 60) (Fin 80), RGBG (Fin 90) (Fin 70) (Fin 50) (Fin 70), nan_row],
          [nan_row, nan_row, RGBG (Fin 10) (Fin 20) (Fin 30) (Fin 20)]]"
  have bl: "baseline_of M = Inr 0" unfolding M_def by code_simp
  have ov: "overlap (M ! 1) (M ! 0) = 0" unfolding M_def by code_simp
  have len: "length M = 2" by (simp add: M_def)
  have iso: "\<forall>j < length M. j \<noteq> 1 \<longrightarrow> overlap (M ! 1) (M ! j) = 0"
    using ov by (simp add: len less_Suc_eq numeral_2_eq_2)
  have "\<exists>e. normalise no_lapack [400, 410, 420] M
          [[RGBG (Fin 5) (Fin 5) (Fin 5) (Fin 5), RGBG (Fin 5) (Fin 5) (Fin 5) (Fin 5), nan_row],
           [nan_row, nan_row, RGBG (Fin 5) (Fin 5) (Fin 5) (Fin 5)]] = Inl e"
    using isolated_spectrum_stops_the_run[OF bl _ _ iso, of no_lapack] by (simp add: len)
  then show ?thesis by (auto simp: M_def)
qed

section \<open>A single configuration\<close>

lemma sequence_Inr:
  "sequence xs = Inr ys \<Longrightarrow> length ys = length xs \<and> (\<forall>i < length xs. xs ! i = Inr (ys ! i))"
proof (induction xs arbitrary: ys)
  case Nil
  then show ?case by simp
next
  case (Cons x xs)
  show ?case
  proof (cases x)
    case (Inl e)
    then show ?thesis using Cons.prems by simp
  next
    case (Inr v)
    then obtain zs where zs: "sequence xs = Inr zs" "ys = v # zs"
      using Cons.prems by (cases "sequence xs") auto
    from Cons.IH[OF zs(1)] have ih: "length zs = length xs" "\<forall>i < length xs. xs ! i = Inr (zs ! i)"
      by simp_all
    have "(x # xs) ! i = Inr (ys ! i)" if "i < length (x # xs)" for i
      using that ih(2) Inr zs(2) by (cases i) simp_all
    then show ?thesis using ih(1) zs(2) by simp
  qed
qed

lemma length_align_one:
  "align_one G wvl mean = Inr S \<Longrightarrow> length S = length G"
  by (auto simp: align_one_def Let_def split: sum.splits)

lemma align_all_shape:
  assumes "align_all ws ms k = Inr A"
  shows "length A = length ws" and "\<forall>S \<in> set A. length S = length (all_wavelengths_of ws)"
proof -
  define f where "f i = (if i < k then align_one (all_wavelengths_of ws) (ws ! i) (ms ! i)
                  else Inr (replicate (length (all_wavelengths_of ws)) nan_row))" for i
  have "align_all ws ms k = sequence (map f [0..<length ws])"
    unfolding align_all_def Let_def f_def ..
  then have seq: "sequence (map f [0..<length ws]) = Inr A"
    using assms by simp
  have len: "length A = length ws"
    using sequence_Inr[OF seq] by simp
  have nth: "f i = Inr (A ! i)" if "i < length ws" for i
  proof -
    have "map f [0..<length ws] ! i = Inr (A ! i)"
      using sequence_Inr[OF seq] that by simp
    then show ?thesis using that by simp
  qed
  show "length A = length ws" by (rule len)
  show "\<forall>S \<in> set A. length S = length (all_wavelengths_of ws)"
  proof
    fix S assume "S \<in> set A"
    then obtain i where i: "i < length A" "A ! i = S" unfolding in_set_conv_nth by blast
    then have fi: "f i = Inr S" using nth[of i] len by simp
    show "length S = length (all_wavelengths_of ws)"
    proof (cases "i < k")
      case True
      then have "align_one (all_wavelengths_of ws) (ws ! i) (ms ! i) = Inr S"
        using fi by (simp add: f_def)
      then show ?thesis by (rule length_align_one)
    next
      case False
      then have "S = replicate (length (all_wavelengths_of ws)) nan_row"
        using fi by (simp add: f_def)
      then show ?thesis by simp
    qed
  qed
qed

lemma length_calibrate_one [simp]: "length (calibrate_one G mean cal) = length mean"
  by (simp add: calibrate_one_def Let_def)

lemma calibrate_all_shape:
  "length (calibrate_all G A cals) = length A"
  "i < length A \<Longrightarrow> length (calibrate_all G A cals ! i) = length (A ! i)"
  by (simp_all add: calibrate_all_def)

lemma normalise_single:
  assumes "length M = 1"
  shows "normalise lapack G M Sd = Inr (initial_state M Sd)"
proof -
  from assms obtain S where M: "M = [S]" by (cases M) auto
  show ?thesis
    by (simp add: M normalise_def baseline_of_def all_overlaps_of_def diag_def np_argmax_def
        first_index_def normalise_order_of_def argsort_def Let_def)
qed

text \<open>The maximum of the combined means.\<close>

lemma fl_ge_refl: "\<not> isnan a \<Longrightarrow> fl_ge a a"
  by (cases a) simp_all

lemma fl_ge_trans: "fl_ge a b \<Longrightarrow> fl_ge b c \<Longrightarrow> fl_ge a c"
  by (cases a; cases b; cases c) simp_all

lemma fl_ge_total: "\<not> isnan a \<Longrightarrow> \<not> isnan b \<Longrightarrow> fl_ge a b \<or> fl_ge b a"
  by (cases a; cases b) auto

lemma foldl_fl_max:
  assumes "\<forall>x \<in> set xs. \<not> isnan x" "\<not> isnan a"
  shows "foldl fl_max a xs \<in> set (a # xs) \<and> (\<forall>x \<in> set (a # xs). fl_ge (foldl fl_max a xs) x)"
  using assms
proof (induction xs arbitrary: a)
  case Nil
  then show ?case by (simp add: fl_ge_refl)
next
  case (Cons y xs)
  let ?b = "fl_max a y"
  have b: "?b = a \<or> ?b = y" "fl_ge ?b a" "fl_ge ?b y" "\<not> isnan ?b"
    using Cons.prems fl_ge_total[of a y] by (auto simp: fl_max_def fl_ge_refl)
  from Cons.IH[of ?b] Cons.prems b(4)
  have ih: "foldl fl_max ?b xs \<in> set (?b # xs)" "\<forall>x \<in> set (?b # xs). fl_ge (foldl fl_max ?b xs) x"
    by simp_all
  have "fl_ge (foldl fl_max ?b xs) ?b" using ih(2) by simp
  then have "fl_ge (foldl fl_max ?b xs) a" "fl_ge (foldl fl_max ?b xs) y"
    using b(2,3) fl_ge_trans by blast+
  then show ?case using ih b(1) by auto
qed

lemma ma_max_unmasked:
  assumes "\<forall>c \<in> set cells. \<not> mask c \<longrightarrow> isfinite (data c)"
    and "c0 \<in> set cells" "\<not> mask c0"
  shows "\<exists>mx. ma_max cells = Inr (MCell (Fin mx) False) \<and>
           (\<exists>c \<in> set cells. \<not> mask c \<and> data c = Fin mx) \<and>
           (\<forall>c \<in> set cells. \<not> mask c \<longrightarrow> real_of (data c) \<le> mx)"
proof -
  let ?xs = "map (\<lambda>c. if mask c then NInf else data c) cells"
  let ?r = "foldl fl_max NInf ?xs"
  have nn: "\<forall>x \<in> set ?xs. \<not> isnan x"
  proof
    fix x assume "x \<in> set ?xs"
    then obtain c where "c \<in> set cells" "x = (if mask c then NInf else data c)" by auto
    then show "\<not> isnan x" using assms(1) by (cases "data c") auto
  qed
  from foldl_fl_max[OF nn, of NInf]
  have mem: "?r \<in> set (NInf # ?xs)" and ge: "\<forall>x \<in> set (NInf # ?xs). fl_ge ?r x" by simp_all
  have "isfinite (data c0)" using assms by blast
  then obtain m0 where m0: "data c0 = Fin m0" by (cases "data c0") auto
  have "Fin m0 \<in> set ?xs" using assms(2,3) m0 by force
  then have "fl_ge ?r (Fin m0)" using ge by simp
  then have "?r \<noteq> NInf" by (cases ?r) auto
  then have "?r \<in> set ?xs" using mem by auto
  then obtain c where c: "c \<in> set cells" "?r = (if mask c then NInf else data c)" by auto
  then have cu: "\<not> mask c" "?r = data c" using \<open>?r \<noteq> NInf\<close> by (auto split: if_splits)
  have "isfinite ?r" using assms(1) c(1) cu by simp
  then obtain mx where mx: "?r = Fin mx" by (cases ?r) auto
  have "real_of (data d) \<le> mx" if "d \<in> set cells" "\<not> mask d" for d
  proof -
    have "isfinite (data d)" using assms(1) that by blast
    then obtain v where v: "data d = Fin v" by (cases "data d") auto
    then have "Fin v \<in> set ?xs" using that by force
    then have "fl_ge ?r (Fin v)" using ge by simp
    then show ?thesis using mx v by simp
  qed
  moreover have "cells \<noteq> []" "\<not> list_all mask cells"
    using assms(2,3) by (auto simp: list_all_iff)
  then have "ma_max cells = Inr (MCell ?r False)"
    by (simp add: ma_max_def)
  then have "ma_max cells = Inr (MCell (Fin mx) False)"
    by (simp only: mx)
  moreover have "data c = Fin mx" using cu(2) mx by simp
  ultimately show ?thesis using c(1) cu(1) by blast
qed

end
